theory Spec2Isabelle
  imports Complex_Main
begin

section \<open>Double-precision values\<close>

text \<open>
  A C++ \<^verbatim>\<open>double\<close> is modelled as a real number or one of the three IEEE 754 special
  values. The operations follow IEEE 754 on the special values (an infinity or a
  not-a-number is produced and propagated as the hardware does, a comparison with a
  not-a-number is false) and are exact on finite values: rounding, overflow and
  underflow are not modelled, and zero carries no sign (a division of a nonzero finite
  value by zero takes the zero as positive).
\<close>

datatype dbl = Fin real | PInf | NInf | NaN

instantiation dbl :: "{comm_monoid_add, one, uminus, minus, times, inverse, ord}"
begin

definition zero_dbl :: dbl where
  "zero_dbl = Fin 0"

definition one_dbl :: dbl where
  "one_dbl = Fin 1"

fun plus_dbl :: "dbl \<Rightarrow> dbl \<Rightarrow> dbl" where
  "plus_dbl NaN _ = NaN"
| "plus_dbl _ NaN = NaN"
| "plus_dbl (Fin a) (Fin b) = Fin (a + b)"
| "plus_dbl PInf NInf = NaN"
| "plus_dbl NInf PInf = NaN"
| "plus_dbl PInf _ = PInf"
| "plus_dbl _ PInf = PInf"
| "plus_dbl NInf _ = NInf"
| "plus_dbl _ NInf = NInf"

fun uminus_dbl :: "dbl \<Rightarrow> dbl" where
  "uminus_dbl (Fin a) = Fin (- a)"
| "uminus_dbl PInf = NInf"
| "uminus_dbl NInf = PInf"
| "uminus_dbl NaN = NaN"

definition minus_dbl :: "dbl \<Rightarrow> dbl \<Rightarrow> dbl" where
  "minus_dbl a b = a + (- b)"

fun times_dbl :: "dbl \<Rightarrow> dbl \<Rightarrow> dbl" where
  "times_dbl NaN _ = NaN"
| "times_dbl _ NaN = NaN"
| "times_dbl (Fin a) (Fin b) = Fin (a * b)"
| "times_dbl PInf (Fin b) = (if b = 0 then NaN else if 0 < b then PInf else NInf)"
| "times_dbl NInf (Fin b) = (if b = 0 then NaN else if 0 < b then NInf else PInf)"
| "times_dbl (Fin a) PInf = (if a = 0 then NaN else if 0 < a then PInf else NInf)"
| "times_dbl (Fin a) NInf = (if a = 0 then NaN else if 0 < a then NInf else PInf)"
| "times_dbl PInf PInf = PInf"
| "times_dbl PInf NInf = NInf"
| "times_dbl NInf PInf = NInf"
| "times_dbl NInf NInf = PInf"

fun divide_dbl :: "dbl \<Rightarrow> dbl \<Rightarrow> dbl" where
  "divide_dbl NaN _ = NaN"
| "divide_dbl _ NaN = NaN"
| "divide_dbl (Fin a) (Fin b) =
     (if b = 0 then (if a = 0 then NaN else if 0 < a then PInf else NInf)
      else Fin (a / b))"
| "divide_dbl (Fin a) _ = Fin 0"
| "divide_dbl PInf (Fin b) = (if 0 \<le> b then PInf else NInf)"
| "divide_dbl NInf (Fin b) = (if 0 \<le> b then NInf else PInf)"
| "divide_dbl _ _ = NaN"

definition inverse_dbl :: "dbl \<Rightarrow> dbl" where
  "inverse_dbl a = divide (Fin 1) a"

fun less_dbl :: "dbl \<Rightarrow> dbl \<Rightarrow> bool" where
  "less_dbl NaN _ = False"
| "less_dbl _ NaN = False"
| "less_dbl (Fin a) (Fin b) = (a < b)"
| "less_dbl _ NInf = False"
| "less_dbl NInf _ = True"
| "less_dbl PInf _ = False"
| "less_dbl _ PInf = True"

fun less_eq_dbl :: "dbl \<Rightarrow> dbl \<Rightarrow> bool" where
  "less_eq_dbl NaN _ = False"
| "less_eq_dbl _ NaN = False"
| "less_eq_dbl (Fin a) (Fin b) = (a \<le> b)"
| "less_eq_dbl NInf _ = True"
| "less_eq_dbl _ PInf = True"
| "less_eq_dbl _ _ = False"

instance
proof
  fix u v w :: dbl
  show "0 + u = u"
    by (cases u; simp add: zero_dbl_def)
  show "u + v = v + u"
    by (cases u; cases v; simp)
  show "u + v + w = u + (v + w)"
    by (cases u; cases v; cases w; simp)
qed

end

text \<open>\<^verbatim>\<open>TMath::Exp(x)\<close>, the exponential of the C library.\<close>

fun TMath_Exp :: "dbl \<Rightarrow> dbl" where
  "TMath_Exp (Fin a) = Fin (exp a)"
| "TMath_Exp PInf = PInf"
| "TMath_Exp NInf = Fin 0"
| "TMath_Exp NaN = NaN"

text \<open>
  \<^verbatim>\<open>TMath::Power(x, 2.)\<close>: every call of the file raises to the power two, which
  is the product of the base with itself (also on the special values).
\<close>

definition TMath_Power2 :: "dbl \<Rightarrow> dbl" where
  "TMath_Power2 a = a * a"

text \<open>The implicit conversion of an \<^verbatim>\<open>int\<close> to a \<^verbatim>\<open>double\<close>.\<close>

definition Dbl_of_int :: "int \<Rightarrow> dbl" where
  "Dbl_of_int n = Fin (of_int n)"

section \<open>Data model\<close>

text \<open>
  The constants of \<^verbatim>\<open>Conventions/Constants.h\<close> and \<^verbatim>\<open>Conventions/Controls.h\<close> that
  the file uses. The headers are not among the files verified here, so the values are
  parameters; each is a finite literal.
\<close>

record constants =
  kGF2 :: real
  kNucleonMass :: real
  kPi3 :: real
  kPionMass :: real
  kPionMass2 :: real
  kMuonMass :: real
  kASmallNum :: real

text \<open>
  \<^verbatim>\<open>KinePhaseSpace_t\<close>: the file names \<^verbatim>\<open>kPSxyfE\<close> (and \<^verbatim>\<open>kPSxytfE\<close> in a
  disabled branch); \<open>kPSOther\<close> stands for the other tags of the enumeration.
\<close>

datatype KinePhaseSpace_t = kPSxyfE | kPSxytfE | kPSOther nat

text \<open>
  \<^verbatim>\<open>Kinematics\<close>: the two scaling variables, and the momentum transfer \<open>t\<close> (read only
  by the disabled branch of \<^verbatim>\<open>XSec\<close>) standing for the kinematic variables that the file
  never writes.
\<close>

record Kinematics =
  fx :: dbl
  fy :: dbl
  ft :: dbl

text \<open>\<open>Z\<close>, \<open>N\<close> and \<open>HitNucPdg\<close> are what the accessors of \<^verbatim>\<open>Target\<close> return.\<close>

record Target =
  Z :: int
  N :: int
  HitNucPdg :: int

text \<open>\<open>ProbeE\<close> is the value of \<^verbatim>\<open>ProbeE(kRfHitNucRest)\<close>.\<close>

record InitialState =
  Tgt :: Target
  ProbeE :: dbl

record ProcessInfo =
  IsDiffractive :: bool

datatype InteractionBit = kISkipProcessChk | kISkipKinematicChk | kIAssumeFreeNucleon

record Interaction =
  Kine :: Kinematics
  InitState :: InitialState
  ProcInfo :: ProcessInfo
  fBits :: "InteractionBit set"

definition TestBit :: "Interaction \<Rightarrow> InteractionBit \<Rightarrow> bool" where
  "TestBit interaction b = (b \<in> fBits interaction)"

text \<open>\<^verbatim>\<open>interaction->KinePtr()->Setx(xc)\<close> and \<^verbatim>\<open>Sety\<close>: a write through the pointer.\<close>

definition Setx :: "Interaction \<Rightarrow> dbl \<Rightarrow> Interaction" where
  "Setx interaction xc = interaction\<lparr>Kine := (Kine interaction)\<lparr>fx := xc\<rparr>\<rparr>"

definition Sety :: "Interaction \<Rightarrow> dbl \<Rightarrow> Interaction" where
  "Sety interaction yc = interaction\<lparr>Kine := (Kine interaction)\<lparr>fy := yc\<rparr>\<rparr>"

text \<open>
  The functions of other files that \<^verbatim>\<open>XSec\<close> calls: the hadronic cross-section table
  \<^verbatim>\<open>utils::hadxs::TotalPionNucleonXSec\<close>, \<^verbatim>\<open>utils::kinematics::Jacobian\<close> and
  \<^verbatim>\<open>pdg::IsProton\<close>. They are parameters; each is taken to return a value and to
  leave the interaction as it is.
\<close>

record externals =
  TotalPionNucleonXSec :: "dbl \<Rightarrow> dbl"
  Jacobian :: "Interaction \<Rightarrow> KinePhaseSpace_t \<Rightarrow> KinePhaseSpace_t \<Rightarrow> dbl"
  IsProton :: "int \<Rightarrow> bool"

text \<open>The two configured parameters of the algorithm object.\<close>

record ReinDFRPXSec =
  fMa :: dbl
  fBeta :: dbl

record Range1D_t =
  min_f :: dbl
  max_f :: dbl

section \<open>The validity gate\<close>

definition ValidProcess :: "Interaction \<Rightarrow> bool" where
  "ValidProcess interaction =
     (if TestBit interaction kISkipProcessChk then True
      else if IsDiffractive (ProcInfo interaction) then True
      else False)"

definition ValidKinematics :: "Interaction \<Rightarrow> bool" where
  "ValidKinematics interaction =
     (if TestBit interaction kISkipKinematicChk then True else True)"

section \<open>The differential cross section\<close>

text \<open>
  Lines 98 to 104 of \<^verbatim>\<open>XSec\<close>: the lower end of the \<open>t\<close> range and the integral of
  \<open>exp (- b t)\<close> over the range, zero when the range has vanished.
\<close>

definition DFR_tmin :: "constants \<Rightarrow> dbl \<Rightarrow> dbl" where
  "DFR_tmin c Epi = TMath_Power2 (Fin 0.5 * Fin (kPionMass2 c) / Epi)"

definition DFR_t_integral :: "constants \<Rightarrow> dbl \<Rightarrow> dbl \<Rightarrow> dbl" where
  "DFR_t_integral c b Epi =
     (let tmin = DFR_tmin c Epi;
          tmax = Fin 99;
          t_integral = 0
      in if tmin < tmax then (TMath_Exp (- b * tmin) - TMath_Exp (- b * tmax)) / b
         else t_integral)"

text \<open>
  \<^verbatim>\<open>XSec\<close> returns its value together with the interaction as the call leaves it: the
  function receives a pointer, and its caller \<^verbatim>\<open>Integral\<close> writes through the same
  pointer.
\<close>

definition XSec ::
  "constants \<Rightarrow> externals \<Rightarrow> ReinDFRPXSec \<Rightarrow> Interaction \<Rightarrow> KinePhaseSpace_t
     \<Rightarrow> dbl \<times> Interaction" where
  "XSec c e this interaction kps =
     (if \<not> ValidProcess interaction then (0, interaction)
      else if \<not> ValidKinematics interaction then (0, interaction)
      else
       (let kinematics = Kine interaction;
            init_state = InitState interaction;
            target = Tgt init_state;
            E = ProbeE init_state;
            x = fx kinematics;
            y = fy kinematics;
            Q2 = Fin 2 * x * y * Fin (kNucleonMass c) * E;
            Gf = Fin (kGF2 c) * Fin (kNucleonMass c) / (Fin 16 * Fin (kPi3 c));
            fp = Fin 0.93 * Fin (kPionMass c);
            fp2 = TMath_Power2 fp;
            Epi = y * E;
            ma2 = TMath_Power2 (fMa this);
            propg = TMath_Power2 (ma2 / (ma2 + Q2));
            sTot = TotalPionNucleonXSec e Epi;
            sTot2 = TMath_Power2 sTot;
            b = fBeta this;
            xsec = Gf * E * fp2 * (1 - y) * propg * sTot2;
            xsec = (if kps = kPSxyfE then xsec * DFR_t_integral c b Epi else xsec);
            xsec = (if kps \<noteq> kPSxyfE then xsec * Jacobian e interaction kPSxyfE kps
                    else xsec)
        in if TestBit interaction kIAssumeFreeNucleon then (xsec, interaction)
           else
            (let nucpdgc = HitNucPdg target;
                 NNucl = (if IsProton e nucpdgc then Z target else N target)
             in (xsec * Dbl_of_int NNucl, interaction))))"

section \<open>The integral over the grid\<close>

text \<open>
  The state of the two loops of \<^verbatim>\<open>Integral\<close>: the interaction behind the pointer, the
  running total, and (for the statements about what is evaluated) the interactions that
  \<^verbatim>\<open>XSec\<close> has been called with, in the order of the calls.
\<close>

record loop_state =
  ls_interaction :: Interaction
  ls_xsec :: dbl
  ls_calls :: "Interaction list"

function loop_y ::
  "constants \<Rightarrow> externals \<Rightarrow> ReinDFRPXSec \<Rightarrow> KinePhaseSpace_t \<Rightarrow> dbl \<Rightarrow> dbl \<Rightarrow> dbl
     \<Rightarrow> dbl \<Rightarrow> int \<Rightarrow> int \<Rightarrow> loop_state \<Rightarrow> loop_state" where
  "loop_y c e this kps dx dy xc ymin ny iy s =
     (if iy < ny then
        (let yc = ymin + Dbl_of_int iy * dy;
             i1 = Setx (ls_interaction s) xc;
             i2 = Sety i1 yc;
             r = XSec c e this i2 kps
         in loop_y c e this kps dx dy xc ymin ny (iy + 1)
              \<lparr>ls_interaction = snd r,
               ls_xsec = ls_xsec s + dx * dy * fst r,
               ls_calls = ls_calls s @ [i2]\<rparr>)
      else s)"
  by pat_completeness auto
termination
  by (relation "measure (\<lambda>(c, e, this, kps, dx, dy, xc, ymin, ny, iy, s). nat (ny - iy))") auto

function loop_x ::
  "constants \<Rightarrow> externals \<Rightarrow> ReinDFRPXSec \<Rightarrow> KinePhaseSpace_t \<Rightarrow> dbl \<Rightarrow> dbl \<Rightarrow> dbl
     \<Rightarrow> dbl \<Rightarrow> int \<Rightarrow> int \<Rightarrow> int \<Rightarrow> loop_state \<Rightarrow> loop_state" where
  "loop_x c e this kps dx dy xmin ymin nx ny ix s =
     (if ix < nx then
        (let xc = xmin + Dbl_of_int ix * dx
         in loop_x c e this kps dx dy xmin ymin nx ny (ix + 1)
              (loop_y c e this kps dx dy xc ymin ny 0 s))
      else s)"
  by pat_completeness auto
termination
  by (relation "measure (\<lambda>(c, e, this, kps, dx, dy, xmin, ymin, nx, ny, ix, s). nat (nx - ix))")
    auto

declare loop_y.simps [simp del]
declare loop_x.simps [simp del]

text \<open>
  \<^verbatim>\<open>Integral\<close> is given by the state at its return: \<open>ls_xsec\<close> is the value that it
  returns, \<open>ls_interaction\<close> the interaction behind the pointer.
\<close>

definition Integral ::
  "constants \<Rightarrow> externals \<Rightarrow> ReinDFRPXSec \<Rightarrow> Interaction \<Rightarrow> loop_state" where
  "Integral c e this interaction =
     (let ml = Fin (kMuonMass c);
          init_state = InitState interaction;
          E = ProbeE init_state;
          x = \<lparr>min_f = Fin (kASmallNum c), max_f = 1 - Fin (kASmallNum c)\<rparr>;
          y = \<lparr>min_f = Fin (kPionMass c) / E + Fin (kASmallNum c),
               max_f = 1 - ml / E - Fin (kASmallNum c)\<rparr>
      in if max_f y \<le> min_f y
         then \<lparr>ls_interaction = interaction, ls_xsec = 0, ls_calls = []\<rparr>
         else
          (let kps = kPSxyfE;
               nx = 300;
               ny = 300;
               dx = (max_f x - min_f x) / Dbl_of_int (nx - 1);
               dy = (max_f y - min_f y) / Dbl_of_int (ny - 1);
               xsec = 0
           in loop_x c e this kps dx dy (min_f x) (min_f y) nx ny 0
                \<lparr>ls_interaction = interaction, ls_xsec = xsec, ls_calls = []\<rparr>))"

section \<open>Quantities of the specification\<close>

text \<open>
  The interaction with its two scaling variables overwritten, as \<^verbatim>\<open>Integral\<close> leaves it
  before a call of \<^verbatim>\<open>XSec\<close>.
\<close>

definition at_xy :: "Interaction \<Rightarrow> dbl \<Rightarrow> dbl \<Rightarrow> Interaction" where
  "at_xy interaction xc yc = Sety (Setx interaction xc) yc"

text \<open>
  The closed form of the specification for the canonical parameterization of a free
  nucleon: prefactor, energy, squared decay constant, \<open>1 - y\<close>, propagator, squared
  hadronic cross section and the integral over \<open>t\<close>, with \<open>Q2 = 2 x y M E\<close> and
  \<open>tmin = (m\<^sub>\<pi>\<^sup>2 / (2 E\<^sub>\<pi>))\<^sup>2\<close>.
\<close>

definition XSec_closed_form ::
  "constants \<Rightarrow> externals \<Rightarrow> ReinDFRPXSec \<Rightarrow> Interaction \<Rightarrow> dbl" where
  "XSec_closed_form c e this interaction =
     (let E = ProbeE (InitState interaction);
          x = fx (Kine interaction);
          y = fy (Kine interaction);
          M = Fin (kNucleonMass c);
          Q2 = Fin 2 * x * y * M * E;
          Epi = y * E;
          Ma2 = TMath_Power2 (fMa this);
          beta = fBeta this;
          tmin = TMath_Power2 (Fin (kPionMass2 c) / (Fin 2 * Epi));
          tmax = Fin 99;
          T = (if tmin < tmax
               then (TMath_Exp (- beta * tmin) - TMath_Exp (- beta * tmax)) / beta
               else 0)
      in Fin (kGF2 c) * M / (Fin 16 * Fin (kPi3 c)) * E
           * TMath_Power2 (Fin 0.93 * Fin (kPionMass c)) * (1 - y)
           * TMath_Power2 (Ma2 / (Ma2 + Q2))
           * TMath_Power2 (TotalPionNucleonXSec e Epi) * T)"


text \<open>
  The integration ranges of the specification, the uniform grid of 300 points over a
  range with both of its ends, and the double sum over the grid.
\<close>

definition Integral_x_range :: "constants \<Rightarrow> Range1D_t" where
  "Integral_x_range c = \<lparr>min_f = Fin (kASmallNum c), max_f = 1 - Fin (kASmallNum c)\<rparr>"

definition Integral_y_range :: "constants \<Rightarrow> dbl \<Rightarrow> Range1D_t" where
  "Integral_y_range c E =
     \<lparr>min_f = Fin (kPionMass c) / E + Fin (kASmallNum c),
      max_f = 1 - Fin (kMuonMass c) / E - Fin (kASmallNum c)\<rparr>"

definition grid_step :: "Range1D_t \<Rightarrow> dbl" where
  "grid_step r = (max_f r - min_f r) / Dbl_of_int (300 - 1)"

definition grid_coord :: "Range1D_t \<Rightarrow> int \<Rightarrow> dbl" where
  "grid_coord r i = min_f r + Dbl_of_int i * grid_step r"

definition grid_point :: "constants \<Rightarrow> Interaction \<Rightarrow> int \<Rightarrow> int \<Rightarrow> Interaction" where
  "grid_point c interaction ix iy =
     at_xy interaction (grid_coord (Integral_x_range c) ix)
       (grid_coord (Integral_y_range c (ProbeE (InitState interaction))) iy)"

definition grid_sum ::
  "constants \<Rightarrow> externals \<Rightarrow> ReinDFRPXSec \<Rightarrow> Interaction \<Rightarrow> dbl" where
  "grid_sum c e this interaction =
     (\<Sum>ix = 0..<300. \<Sum>iy = 0..<300.
        grid_step (Integral_x_range c)
          * grid_step (Integral_y_range c (ProbeE (InitState interaction)))
          * fst (XSec c e this (grid_point c interaction ix iy) kPSxyfE))"

text \<open>The energy threshold of the reaction, \<open>(m\<^sub>\<pi> + m\<^sub>\<mu>) / (1 - 2 \<epsilon>)\<close>.\<close>

definition threshold :: "constants \<Rightarrow> real" where
  "threshold c = (kPionMass c + kMuonMass c) / (1 - 2 * kASmallNum c)"

section \<open>Example values\<close>

text \<open>
  Values at which the theorems below are instantiated: the physical constants in GeV
  units, a constant hadronic cross section and a unit Jacobian, and a diffractive
  interaction of a 5 GeV probe on a proton of carbon.
\<close>

definition example_constants :: constants where
  "example_constants =
     \<lparr>kGF2 = 1.3604656 / 10 ^ 10, kNucleonMass = 0.9389187, kPi3 = pi ^ 3,
      kPionMass = 0.13957018, kPionMass2 = (0.13957018)\<^sup>2, kMuonMass = 0.105658357,
      kASmallNum = 1 / 10 ^ 6\<rparr>"

definition example_externals :: externals where
  "example_externals =
     \<lparr>TotalPionNucleonXSec = (\<lambda>Epi. Fin 25), Jacobian = (\<lambda>interaction a b. Fin 1),
      IsProton = (\<lambda>pdgc. pdgc = 2212)\<rparr>"

definition example_model :: ReinDFRPXSec where
  "example_model = \<lparr>fMa = Fin 1.1, fBeta = Fin 7\<rparr>"

definition example_interaction :: Interaction where
  "example_interaction =
     \<lparr>Kine = \<lparr>fx = Fin 0.1, fy = Fin 0.3, ft = Fin 0\<rparr>,
      InitState = \<lparr>Tgt = \<lparr>Z = 6, N = 6, HitNucPdg = 2212\<rparr>, ProbeE = Fin 5\<rparr>,
      ProcInfo = \<lparr>IsDiffractive = True\<rparr>,
      fBits = {kIAssumeFreeNucleon}\<rparr>"

section \<open>Binary64 arithmetic\<close>

text \<open>
  The arithmetic of the sections above is exact on finite values. The hardware rounds
  each result to the nearest binary64 number, ties to the even mantissa. \<open>b64 x\<close> is
  that number for a real \<open>x\<close>: with \<open>e\<close> the exponent of the binade of \<open>\<bar>x\<bar>\<close>, not below
  the least normal exponent -1022, the spacing of the doubles around \<open>x\<close> is
  \<open>2 powr (e - 52)\<close>; the quotient of \<open>\<bar>x\<bar>\<close> by the spacing is rounded to an integer,
  and a result of magnitude \<open>2 ^ 1024\<close> or more is an infinity. Below the least normal
  number the spacing stays \<open>2 powr (- 1074)\<close>, so that a magnitude below half of it
  becomes zero (underflow). As in \<open>dbl\<close>, zero carries no sign.
\<close>

definition rint :: "real \<Rightarrow> int" where
  "rint q = (let f = \<lfloor>q\<rfloor>; d = q - of_int f
             in if d < 1 / 2 then f else if 1 / 2 < d then f + 1
                else if even f then f else f + 1)"

definition b64_exponent :: "real \<Rightarrow> int" where
  "b64_exponent x = max \<lfloor>log 2 x\<rfloor> (- 1022)"

definition b64_ulp :: "real \<Rightarrow> real" where
  "b64_ulp x = 2 powr of_int (b64_exponent x - 52)"

definition b64_mag :: "real \<Rightarrow> real" where
  "b64_mag x = of_int (rint (x / b64_ulp x)) * b64_ulp x"

definition b64 :: "real \<Rightarrow> dbl" where
  "b64 x = (if x = 0 then Fin 0
            else if 2 ^ 1024 \<le> b64_mag \<bar>x\<bar> then (if 0 < x then PInf else NInf)
            else Fin (sgn x * b64_mag \<bar>x\<bar>))"

text \<open>
  An operation of the program is the exact operation followed by the rounding \<open>rnd\<close> of a
  finite result. The rounding is a parameter: \<open>Fin\<close> (no rounding) gives back the exact
  arithmetic, \<open>b64\<close> is the arithmetic of the hardware. Each C++ operation is rounded on
  its own (no fused multiply-add).
\<close>

definition rounded :: "(real \<Rightarrow> dbl) \<Rightarrow> dbl \<Rightarrow> dbl" where
  "rounded rnd v = (case v of Fin a \<Rightarrow> rnd a | PInf \<Rightarrow> PInf | NInf \<Rightarrow> NInf | NaN \<Rightarrow> NaN)"

definition add_r :: "(real \<Rightarrow> dbl) \<Rightarrow> dbl \<Rightarrow> dbl \<Rightarrow> dbl" where
  "add_r rnd a b = rounded rnd (a + b)"

definition sub_r :: "(real \<Rightarrow> dbl) \<Rightarrow> dbl \<Rightarrow> dbl \<Rightarrow> dbl" where
  "sub_r rnd a b = rounded rnd (a - b)"

definition mul_r :: "(real \<Rightarrow> dbl) \<Rightarrow> dbl \<Rightarrow> dbl \<Rightarrow> dbl" where
  "mul_r rnd a b = rounded rnd (a * b)"

definition div_r :: "(real \<Rightarrow> dbl) \<Rightarrow> dbl \<Rightarrow> dbl \<Rightarrow> dbl" where
  "div_r rnd a b = rounded rnd (a / b)"

definition Exp_r :: "(real \<Rightarrow> dbl) \<Rightarrow> dbl \<Rightarrow> dbl" where
  "Exp_r rnd a = rounded rnd (TMath_Exp a)"

definition Power2_r :: "(real \<Rightarrow> dbl) \<Rightarrow> dbl \<Rightarrow> dbl" where
  "Power2_r rnd a = rounded rnd (TMath_Power2 a)"

section \<open>The two functions in rounded arithmetic\<close>

text \<open>
  \<^verbatim>\<open>XSec\<close> and \<^verbatim>\<open>Integral\<close> once more, statement by statement as above, with each
  arithmetic result rounded by \<open>rnd\<close>. The constants of the record are the values of the
  \<^verbatim>\<open>double\<close> constants; the literal \<^verbatim>\<open>0.93\<close> is converted by the rounding, the other
  literals (0.5, 1, 2, 16, 99) and the loop counters are doubles as they stand.
\<close>

definition DFR_tmin_r :: "(real \<Rightarrow> dbl) \<Rightarrow> constants \<Rightarrow> dbl \<Rightarrow> dbl" where
  "DFR_tmin_r rnd c Epi =
     Power2_r rnd (div_r rnd (mul_r rnd (Fin 0.5) (Fin (kPionMass2 c))) Epi)"

definition DFR_t_integral_r :: "(real \<Rightarrow> dbl) \<Rightarrow> constants \<Rightarrow> dbl \<Rightarrow> dbl \<Rightarrow> dbl" where
  "DFR_t_integral_r rnd c b Epi =
     (let tmin = DFR_tmin_r rnd c Epi;
          tmax = Fin 99;
          t_integral = 0
      in if tmin < tmax
         then div_r rnd (sub_r rnd (Exp_r rnd (mul_r rnd (- b) tmin))
                (Exp_r rnd (mul_r rnd (- b) tmax))) b
         else t_integral)"

definition XSec_r ::
  "(real \<Rightarrow> dbl) \<Rightarrow> constants \<Rightarrow> externals \<Rightarrow> ReinDFRPXSec \<Rightarrow> Interaction
     \<Rightarrow> KinePhaseSpace_t \<Rightarrow> dbl \<times> Interaction" where
  "XSec_r rnd c e this interaction kps =
     (if \<not> ValidProcess interaction then (0, interaction)
      else if \<not> ValidKinematics interaction then (0, interaction)
      else
       (let kinematics = Kine interaction;
            init_state = InitState interaction;
            target = Tgt init_state;
            E = ProbeE init_state;
            x = fx kinematics;
            y = fy kinematics;
            Q2 = mul_r rnd (mul_r rnd (mul_r rnd (mul_r rnd (Fin 2) x) y)
                   (Fin (kNucleonMass c))) E;
            Gf = div_r rnd (mul_r rnd (Fin (kGF2 c)) (Fin (kNucleonMass c)))
                   (mul_r rnd (Fin 16) (Fin (kPi3 c)));
            fp = mul_r rnd (rnd 0.93) (Fin (kPionMass c));
            fp2 = Power2_r rnd fp;
            Epi = mul_r rnd y E;
            ma2 = Power2_r rnd (fMa this);
            propg = Power2_r rnd (div_r rnd ma2 (add_r rnd ma2 Q2));
            sTot = TotalPionNucleonXSec e Epi;
            sTot2 = Power2_r rnd sTot;
            b = fBeta this;
            xsec = mul_r rnd (mul_r rnd (mul_r rnd (mul_r rnd (mul_r rnd Gf E) fp2)
                     (sub_r rnd 1 y)) propg) sTot2;
            xsec = (if kps = kPSxyfE then mul_r rnd xsec (DFR_t_integral_r rnd c b Epi)
                    else xsec);
            xsec = (if kps \<noteq> kPSxyfE
                    then mul_r rnd xsec (Jacobian e interaction kPSxyfE kps)
                    else xsec)
        in if TestBit interaction kIAssumeFreeNucleon then (xsec, interaction)
           else
            (let nucpdgc = HitNucPdg target;
                 NNucl = (if IsProton e nucpdgc then Z target else N target)
             in (mul_r rnd xsec (Dbl_of_int NNucl), interaction))))"

function loop_y_r ::
  "(real \<Rightarrow> dbl) \<Rightarrow> constants \<Rightarrow> externals \<Rightarrow> ReinDFRPXSec \<Rightarrow> KinePhaseSpace_t
     \<Rightarrow> dbl \<Rightarrow> dbl \<Rightarrow> dbl \<Rightarrow> dbl \<Rightarrow> int \<Rightarrow> int \<Rightarrow> loop_state \<Rightarrow> loop_state" where
  "loop_y_r rnd c e this kps dx dy xc ymin ny iy s =
     (if iy < ny then
        (let yc = add_r rnd ymin (mul_r rnd (Dbl_of_int iy) dy);
             i1 = Setx (ls_interaction s) xc;
             i2 = Sety i1 yc;
             r = XSec_r rnd c e this i2 kps
         in loop_y_r rnd c e this kps dx dy xc ymin ny (iy + 1)
              \<lparr>ls_interaction = snd r,
               ls_xsec = add_r rnd (ls_xsec s) (mul_r rnd (mul_r rnd dx dy) (fst r)),
               ls_calls = ls_calls s @ [i2]\<rparr>)
      else s)"
  by pat_completeness auto
termination
  by (relation "measure (\<lambda>(rnd, c, e, this, kps, dx, dy, xc, ymin, ny, iy, s). nat (ny - iy))")
    auto

function loop_x_r ::
  "(real \<Rightarrow> dbl) \<Rightarrow> constants \<Rightarrow> externals \<Rightarrow> ReinDFRPXSec \<Rightarrow> KinePhaseSpace_t
     \<Rightarrow> dbl \<Rightarrow> dbl \<Rightarrow> dbl \<Rightarrow> dbl \<Rightarrow> int \<Rightarrow> int \<Rightarrow> int \<Rightarrow> loop_state \<Rightarrow> loop_state" where
  "loop_x_r rnd c e this kps dx dy xmin ymin nx ny ix s =
     (if ix < nx then
        (let xc = add_r rnd xmin (mul_r rnd (Dbl_of_int ix) dx)
         in loop_x_r rnd c e this kps dx dy xmin ymin nx ny (ix + 1)
              (loop_y_r rnd c e this kps dx dy xc ymin ny 0 s))
      else s)"
  by pat_completeness auto
termination
  by (relation
      "measure (\<lambda>(rnd, c, e, this, kps, dx, dy, xmin, ymin, nx, ny, ix, s). nat (nx - ix))")
    auto

declare loop_y_r.simps [simp del]
declare loop_x_r.simps [simp del]

definition Integral_r ::
  "(real \<Rightarrow> dbl) \<Rightarrow> constants \<Rightarrow> externals \<Rightarrow> ReinDFRPXSec \<Rightarrow> Interaction
     \<Rightarrow> loop_state" where
  "Integral_r rnd c e this interaction =
     (let ml = Fin (kMuonMass c);
          init_state = InitState interaction;
          E = ProbeE init_state;
          x = \<lparr>min_f = Fin (kASmallNum c), max_f = sub_r rnd 1 (Fin (kASmallNum c))\<rparr>;
          y = \<lparr>min_f = add_r rnd (div_r rnd (Fin (kPionMass c)) E) (Fin (kASmallNum c)),
               max_f = sub_r rnd (sub_r rnd 1 (div_r rnd ml E)) (Fin (kASmallNum c))\<rparr>
      in if max_f y \<le> min_f y
         then \<lparr>ls_interaction = interaction, ls_xsec = 0, ls_calls = []\<rparr>
         else
          (let kps = kPSxyfE;
               nx = 300;
               ny = 300;
               dx = div_r rnd (sub_r rnd (max_f x) (min_f x)) (Dbl_of_int (nx - 1));
               dy = div_r rnd (sub_r rnd (max_f y) (min_f y)) (Dbl_of_int (ny - 1));
               xsec = 0
           in loop_x_r rnd c e this kps dx dy (min_f x) (min_f y) nx ny 0
                \<lparr>ls_interaction = interaction, ls_xsec = xsec, ls_calls = []\<rparr>))"

text \<open>
  The ranges, the grid and the total of the specification in rounded arithmetic. The
  total is accumulated in the order of the two loops, the index of \<open>x\<close> outermost.
\<close>

definition Integral_x_range_r :: "(real \<Rightarrow> dbl) \<Rightarrow> constants \<Rightarrow> Range1D_t" where
  "Integral_x_range_r rnd c =
     \<lparr>min_f = Fin (kASmallNum c), max_f = sub_r rnd 1 (Fin (kASmallNum c))\<rparr>"

definition Integral_y_range_r :: "(real \<Rightarrow> dbl) \<Rightarrow> constants \<Rightarrow> dbl \<Rightarrow> Range1D_t" where
  "Integral_y_range_r rnd c E =
     \<lparr>min_f = add_r rnd (div_r rnd (Fin (kPionMass c)) E) (Fin (kASmallNum c)),
      max_f = sub_r rnd (sub_r rnd 1 (div_r rnd (Fin (kMuonMass c)) E)) (Fin (kASmallNum c))\<rparr>"

definition grid_step_r :: "(real \<Rightarrow> dbl) \<Rightarrow> Range1D_t \<Rightarrow> dbl" where
  "grid_step_r rnd r = div_r rnd (sub_r rnd (max_f r) (min_f r)) (Dbl_of_int (300 - 1))"

definition grid_coord_r :: "(real \<Rightarrow> dbl) \<Rightarrow> Range1D_t \<Rightarrow> int \<Rightarrow> dbl" where
  "grid_coord_r rnd r i = add_r rnd (min_f r) (mul_r rnd (Dbl_of_int i) (grid_step_r rnd r))"

definition grid_point_r ::
  "(real \<Rightarrow> dbl) \<Rightarrow> constants \<Rightarrow> Interaction \<Rightarrow> int \<Rightarrow> int \<Rightarrow> Interaction" where
  "grid_point_r rnd c interaction ix iy =
     at_xy interaction (grid_coord_r rnd (Integral_x_range_r rnd c) ix)
       (grid_coord_r rnd (Integral_y_range_r rnd c (ProbeE (InitState interaction))) iy)"

definition grid_points_r ::
  "(real \<Rightarrow> dbl) \<Rightarrow> constants \<Rightarrow> Interaction \<Rightarrow> Interaction list" where
  "grid_points_r rnd c interaction =
     concat (map (\<lambda>ix. map (\<lambda>iy. grid_point_r rnd c interaction ix iy) [0..299]) [0..299])"

definition accumulate_r ::
  "(real \<Rightarrow> dbl) \<Rightarrow> constants \<Rightarrow> externals \<Rightarrow> ReinDFRPXSec \<Rightarrow> dbl \<Rightarrow> dbl \<Rightarrow> dbl
     \<Rightarrow> Interaction \<Rightarrow> dbl" where
  "accumulate_r rnd c e this dx dy xsec p =
     add_r rnd xsec (mul_r rnd (mul_r rnd dx dy) (fst (XSec_r rnd c e this p kPSxyfE)))"

definition grid_total_r ::
  "(real \<Rightarrow> dbl) \<Rightarrow> constants \<Rightarrow> externals \<Rightarrow> ReinDFRPXSec \<Rightarrow> Interaction \<Rightarrow> dbl" where
  "grid_total_r rnd c e this interaction =
     foldl (accumulate_r rnd c e this (grid_step_r rnd (Integral_x_range_r rnd c))
              (grid_step_r rnd (Integral_y_range_r rnd c (ProbeE (InitState interaction)))))
       0 (grid_points_r rnd c interaction)"

section \<open>Binary64 example values\<close>

text \<open>
  The doubles nearest to the example values: the constants (\<open>kPionMass2\<close> is the rounded
  square of the double \<open>kPionMass\<close>, \<open>kPi3\<close> a double next to \<open>\<pi>\<^sup>3\<close>), the axial mass 1.1,
  and the interaction with \<open>x\<close> = 0.1, \<open>y\<close> = 0.3 and a probe of 5 GeV. Each is written as
  its mantissa over a power of two.
\<close>

definition binary64_constants :: constants where
  "binary64_constants =
     \<lparr>kGF2 = 5263046369720026 / 2 ^ 85, kNucleonMass = 8457027814902381 / 2 ^ 53,
      kPi3 = 8727491006471547 / 2 ^ 48, kPionMass = 5028545685120264 / 2 ^ 55,
      kPionMass2 = 5614680211283668 / 2 ^ 58, kMuonMass = 7613486995420461 / 2 ^ 56,
      kASmallNum = 4722366482869645 / 2 ^ 72\<rparr>"

definition binary64_model :: ReinDFRPXSec where
  "binary64_model = \<lparr>fMa = Fin (4953959590107546 / 2 ^ 52), fBeta = Fin 7\<rparr>"

definition binary64_interaction :: Interaction where
  "binary64_interaction =
     \<lparr>Kine = \<lparr>fx = Fin (7205759403792794 / 2 ^ 56), fy = Fin (5404319552844595 / 2 ^ 54),
        ft = Fin 0\<rparr>,
      InitState = \<lparr>Tgt = \<lparr>Z = 6, N = 6, HitNucPdg = 2212\<rparr>, ProbeE = Fin 5\<rparr>,
      ProcInfo = \<lparr>IsDiffractive = True\<rparr>,
      fBits = {kIAssumeFreeNucleon}\<rparr>"

text \<open>The interaction with another energy of the probe.\<close>

definition at_energy :: "Interaction \<Rightarrow> dbl \<Rightarrow> Interaction" where
  "at_energy interaction E = interaction\<lparr>InitState := (InitState interaction)\<lparr>ProbeE := E\<rparr>\<rparr>"

section \<open>Arithmetic of doubles\<close>

lemma dbl_mult_commute: "(a::dbl) * b = b * a"
  by (cases a; cases b) simp_all

lemma tmin_forms:
  "TMath_Power2 (Fin m2 / (Fin 2 * Epi)) = TMath_Power2 (Fin 0.5 * Fin m2 / Epi)"
  by (cases Epi) (simp_all add: TMath_Power2_def)

lemma dbl_less_irrefl: "\<not> (a::dbl) < a"
  by (cases a) simp_all

lemma dbl_le_trans: "(a::dbl) \<le> b \<Longrightarrow> b \<le> c \<Longrightarrow> a \<le> c"
  by (cases a; cases b; cases c) simp_all

section \<open>Rounding to binary64\<close>

lemma rint_cases: "rint q = \<lfloor>q\<rfloor> \<or> rint q = \<lfloor>q\<rfloor> + 1"
  by (simp add: rint_def Let_def)

lemma rint_ge:
  assumes "of_int n \<le> q" shows "n \<le> rint q"
proof -
  from assms have "n \<le> \<lfloor>q\<rfloor>" by (simp add: le_floor_iff)
  with rint_cases [of q] show ?thesis by auto
qed

lemma rint_of_int [simp]: "rint (of_int n) = n"
  by (simp add: rint_def)

lemma rint_le: 
  assumes "q \<le> of_int n" shows "rint q \<le> n"
proof (cases "q = of_int n")
  case True then show ?thesis by simp
next
  case False
  with assms have "q < of_int n" by simp
  then have "\<lfloor>q\<rfloor> < n" by (simp add: floor_less_iff)
  with rint_cases [of q] show ?thesis by auto
qed

lemma rint_near:
  assumes "\<bar>q - of_int n\<bar> < 1 / 2"
  shows "rint q = n"
proof (cases "of_int n \<le> q")
  case True
  with assms have "\<lfloor>q\<rfloor> = n" by (intro floor_unique) linarith+
  moreover have "q - of_int n < 1 / 2" using assms by linarith
  ultimately show ?thesis by (simp add: rint_def Let_def)
next
  case False
  have lo: "of_int n - 1 < q" using assms by linarith
  have hi: "q < of_int n" using False by simp
  have f: "\<lfloor>q\<rfloor> = n - 1"
    using lo hi by (intro floor_unique) simp_all
  have "q - of_int (n - 1) = q - of_int n + 1" by simp
  with lo have "1 / 2 < q - of_int (n - 1)" using assms by linarith
  with f show ?thesis by (simp add: rint_def Let_def)
qed

lemma rint_mono:
  assumes "p \<le> q" shows "rint p \<le> rint q"
proof (cases "\<lfloor>p\<rfloor> = \<lfloor>q\<rfloor>")
  case False
  from assms have "\<lfloor>p\<rfloor> \<le> \<lfloor>q\<rfloor>" by (rule floor_mono)
  with False have "\<lfloor>p\<rfloor> + 1 \<le> \<lfloor>q\<rfloor>" by simp
  with rint_cases [of p] rint_cases [of q] show ?thesis by auto
next
  case True
  with assms show ?thesis
    by (auto simp add: rint_def Let_def)
qed

lemma b64_exponent_eq:
  assumes "0 < x" and "2 powr of_int e \<le> x" and "x < 2 powr of_int (e + 1)" and "- 1022 \<le> e"
  shows "b64_exponent x = e"
proof -
  have "\<lfloor>log 2 x\<rfloor> = e"
    using assms by (simp add: floor_log_eq_powr_iff)
  with assms(4) show ?thesis by (simp add: b64_exponent_def)
qed

lemma b64_exponent_sub:
  assumes "0 < x" and "x < 2 powr of_int (- 1022)"
  shows "b64_exponent x = - 1022"
proof -
  have "log 2 x < of_int (- 1022)"
    using assms by (simp add: log_less_iff)
  then have "\<lfloor>log 2 x\<rfloor> < - 1022"
    by (simp add: floor_less_iff)
  then show ?thesis by (simp add: b64_exponent_def)
qed

lemma b64_ulp_pos: "0 < b64_ulp x"
  by (simp add: b64_ulp_def)

lemma b64_ulp_exponent:
  "b64_ulp x = 2 powr of_int (b64_exponent x) / 2 ^ 52"
proof -
  have "of_int (b64_exponent x - 52) = of_int (b64_exponent x) - (52::real)"
    by simp
  then show ?thesis
    by (simp only: b64_ulp_def powr_diff) simp
qed

lemma powr_int_Suc: "(2::real) powr of_int (e + 1) = 2 * 2 powr of_int e"
  by (simp add: powr_add)

lemma b64_mag_normal:
  assumes "p = 2 powr of_int e" and "- 1022 \<le> e" and "p \<le> x" and "x < 2 * p"
    and "\<bar>x * 2 ^ 52 / p - of_int m\<bar> < 1 / 2"
  shows "b64_mag x = of_int m * p / 2 ^ 52"
proof -
  have p: "0 < p"
    by (simp add: assms(1))
  with assms(3) have x: "0 < x"
    by linarith
  have e: "b64_exponent x = e"
    using x assms(2,3,4) by (intro b64_exponent_eq) (simp_all add: powr_add assms(1))
  have u: "b64_ulp x = p / 2 ^ 52"
    by (simp add: b64_ulp_exponent e assms(1))
  have "x / b64_ulp x = x * 2 ^ 52 / p"
    by (simp add: u)
  then have "rint (x / b64_ulp x) = m"
    using assms(5) by (simp add: rint_near)
  then show ?thesis
    by (simp add: b64_mag_def u)
qed

lemma b64_minus: "b64 (- x) = - b64 x"
  by (simp add: b64_def sgn_if)

lemma b64_normal:
  assumes "p = 2 powr of_int e" and "- 1022 \<le> e" and "p \<le> x" and "x < 2 * p"
    and "\<bar>x * 2 ^ 52 / p - of_int m\<bar> < 1 / 2"
    and "of_int m * p / 2 ^ 52 < 2 ^ 1024"
  shows "b64 x = Fin (of_int m * p / 2 ^ 52)"
proof -
  have p: "0 < p"
    by (simp add: assms(1))
  with assms(3) have x: "0 < x"
    by linarith
  have "b64_mag \<bar>x\<bar> = of_int m * p / 2 ^ 52"
    using x b64_mag_normal [OF assms(1-5)] by simp
  with x assms(6) show ?thesis
    by (simp add: b64_def)
qed

lemma mantissa_bound:
  fixes q :: real
  assumes "q < 2 ^ 53" and "\<bar>q - of_int m\<bar> < 1 / 2"
  shows "of_int m \<le> (2::real) ^ 53"
proof -
  have "real_of_int m < 2 ^ 53 + 1"
    using assms by linarith
  then have "real_of_int m < real_of_int (2 ^ 53 + 1)"
    by simp
  then have "m < 2 ^ 53 + 1"
    by (simp only: of_int_less_iff)
  then have "m \<le> 2 ^ 53"
    by simp
  then have "real_of_int m \<le> real_of_int (2 ^ 53)"
    by (simp only: of_int_le_iff)
  then show ?thesis
    by simp
qed

lemma b64_eval_neg:
  assumes "k \<le> 1022" and "1 / 2 ^ k \<le> x" and "x < 2 / 2 ^ k"
    and "\<bar>x * 2 ^ 52 * 2 ^ k - of_int m\<bar> < 1 / 2"
  shows "b64 x = Fin (of_int m / 2 ^ (52 + k))"
proof -
  define p :: real where "p = 1 / 2 ^ k"
  have p: "p = 2 powr of_int (- int k)"
    by (simp add: p_def powr_minus powr_realpow inverse_eq_divide)
  have p0: "0 < p" and p1: "p \<le> 1"
    by (simp_all add: p_def divide_le_eq_1)
  have le: "- 1022 \<le> - int k"
    using assms(1) by simp
  have lo: "p \<le> x"
    using assms(2) by (simp add: p_def)
  have hi: "x < 2 * p"
    using assms(3) by (simp add: p_def)
  have q: "x * 2 ^ 52 / p = x * 2 ^ 52 * 2 ^ k"
    by (simp add: p_def)
  have near: "\<bar>x * 2 ^ 52 / p - of_int m\<bar> < 1 / 2"
    using assms(4) by (simp only: q)
  have "x / p < 2"
    using hi p0 by (simp add: pos_divide_less_eq)
  then have "x / p * 2 ^ 52 < 2 * 2 ^ 52"
    by (intro mult_strict_right_mono) simp_all
  then have "x * 2 ^ 52 / p < 2 ^ 53"
    by simp
  then have m: "of_int m \<le> (2::real) ^ 53"
    using near by (rule mantissa_bound)
  have "of_int m * p \<le> 2 ^ 53 * 1"
    using m p1 p0 by (intro mult_mono) simp_all
  then have "of_int m * p / 2 ^ 52 \<le> 2"
    by simp
  moreover have "(2::real) ^ 1 < 2 ^ 1024"
    by (rule power_strict_increasing) simp_all
  ultimately have small: "of_int m * p / 2 ^ 52 < 2 ^ 1024"
    by simp
  have "b64 x = Fin (of_int m * p / 2 ^ 52)"
    using p le lo hi near small by (rule b64_normal)
  then show ?thesis
    by (simp add: p_def power_add)
qed

lemma b64_eval_pos:
  assumes "k \<le> 1023" and "2 ^ k \<le> x" and "x < 2 * 2 ^ k"
    and "\<bar>x * 2 ^ 52 / 2 ^ k - of_int m\<bar> < 1 / 2"
    and "of_int m * 2 ^ k / 2 ^ 52 < (2::real) ^ 1024"
  shows "b64 x = Fin (of_int m * 2 ^ k / 2 ^ 52)"
proof -
  have p: "(2::real) ^ k = 2 powr of_int (int k)"
    by (simp add: powr_realpow)
  have le: "- 1022 \<le> int k"
    by simp
  show ?thesis
    using p le assms(2,3,4,5) by (rule b64_normal)
qed


lemma b64_underflow:
  assumes "\<bar>x\<bar> < 1 / 2 ^ 1075"
  shows "b64 x = Fin 0"
proof (cases "x = 0")
  case True
  then show ?thesis by (simp add: b64_def)
next
  case False
  then have a: "0 < \<bar>x\<bar>" by simp
  have p: "(1::real) / 2 ^ 1022 = 2 powr of_int (- 1022)"
    by (simp add: powr_minus inverse_eq_divide)
  have "(1::real) / 2 ^ 1075 < 1 / 2 ^ 1022"
    by simp
  with assms have "\<bar>x\<bar> < 2 powr of_int (- 1022)"
    unfolding p [symmetric] by linarith
  with a have e: "b64_exponent \<bar>x\<bar> = - 1022"
    by (rule b64_exponent_sub)
  have u: "b64_ulp \<bar>x\<bar> = 1 / 2 ^ 1074"
    by (simp add: b64_ulp_def e powr_minus inverse_eq_divide)
  have "\<bar>x\<bar> * 2 ^ 1074 < 1 / 2 ^ 1075 * 2 ^ 1074"
    using assms by (intro mult_strict_right_mono) simp_all
  then have "\<bar>\<bar>x\<bar> / b64_ulp \<bar>x\<bar> - of_int 0\<bar> < 1 / 2"
    using a by (simp add: u)
  then have "rint (\<bar>x\<bar> / b64_ulp \<bar>x\<bar>) = 0"
    by (rule rint_near)
  then have "b64_mag \<bar>x\<bar> = 0"
    by (simp add: b64_mag_def)
  then show ?thesis
    by (simp add: b64_def)
qed

lemma b64_exponent_mono:
  assumes "0 < x" and "x \<le> y"
  shows "b64_exponent x \<le> b64_exponent y"
proof -
  have "log 2 x \<le> log 2 y"
    using assms by simp
  then have "\<lfloor>log 2 x\<rfloor> \<le> \<lfloor>log 2 y\<rfloor>"
    by (rule floor_mono)
  then show ?thesis
    by (simp add: b64_exponent_def)
qed

lemma b64_exponent_upper:
  assumes "0 < x"
  shows "x < 2 powr of_int (b64_exponent x + 1)"
proof -
  have "log 2 x < of_int \<lfloor>log 2 x\<rfloor> + 1"
    by linarith
  also have "\<dots> \<le> of_int (b64_exponent x + 1)"
    by (simp add: b64_exponent_def)
  finally show ?thesis
    using assms by (simp only: log_less_iff)
qed

lemma b64_exponent_lower:
  assumes "0 < x" and "- 1022 < b64_exponent x"
  shows "2 powr of_int (b64_exponent x) \<le> x"
proof -
  have "b64_exponent x = \<lfloor>log 2 x\<rfloor>"
    using assms(2) by (simp add: b64_exponent_def max_def split: if_splits)
  then have "of_int (b64_exponent x) \<le> log 2 x"
    by simp
  then show ?thesis
    using assms(1) by (simp add: le_log_iff)
qed

lemma b64_mag_upper:
  assumes "0 < x"
  shows "b64_mag x \<le> 2 powr of_int (b64_exponent x + 1)"
proof -
  define p :: real where "p = 2 powr of_int (b64_exponent x)"
  have p0: "0 < p"
    by (simp add: p_def)
  have u: "b64_ulp x = p / 2 ^ 52"
    by (simp add: b64_ulp_exponent p_def)
  have hi: "x < 2 * p"
    using b64_exponent_upper [OF assms] by (simp add: p_def powr_add)
  then have "x / p < 2"
    using p0 by (simp add: pos_divide_less_eq)
  then have "x / p * 2 ^ 52 < 2 * 2 ^ 52"
    by (intro mult_strict_right_mono) simp_all
  then have "x / b64_ulp x \<le> of_int (2 ^ 53)"
    by (simp add: u)
  then have "rint (x / b64_ulp x) \<le> 2 ^ 53"
    by (rule rint_le)
  then have "real_of_int (rint (x / b64_ulp x)) \<le> real_of_int (2 ^ 53)"
    by (simp only: of_int_le_iff)
  then have "real_of_int (rint (x / b64_ulp x)) * (p / 2 ^ 52) \<le> 2 ^ 53 * (p / 2 ^ 52)"
    using p0 by (intro mult_right_mono) simp_all
  then show ?thesis
    by (simp add: b64_mag_def u p_def powr_add)
qed

lemma b64_mag_lower:
  assumes "2 powr of_int (b64_exponent x) \<le> x"
  shows "2 powr of_int (b64_exponent x) \<le> b64_mag x"
proof -
  define p :: real where "p = 2 powr of_int (b64_exponent x)"
  have p0: "0 < p"
    by (simp add: p_def)
  have u: "b64_ulp x = p / 2 ^ 52"
    by (simp add: b64_ulp_exponent p_def)
  have "1 \<le> x / p"
    using assms p0 by (simp add: p_def)
  then have "1 * 2 ^ 52 \<le> x / p * 2 ^ 52"
    by (intro mult_right_mono) simp_all
  then have "of_int (2 ^ 52) \<le> x / b64_ulp x"
    by (simp add: u)
  then have "2 ^ 52 \<le> rint (x / b64_ulp x)"
    by (rule rint_ge)
  then have "real_of_int (2 ^ 52) \<le> real_of_int (rint (x / b64_ulp x))"
    by (simp only: of_int_le_iff)
  then have "2 ^ 52 * (p / 2 ^ 52) \<le> real_of_int (rint (x / b64_ulp x)) * (p / 2 ^ 52)"
    using p0 by (intro mult_right_mono) simp_all
  then show ?thesis
    by (simp add: b64_mag_def u p_def)
qed

lemma b64_mag_nonneg:
  assumes "0 \<le> x"
  shows "0 \<le> b64_mag x"
proof -
  have "of_int 0 \<le> x / b64_ulp x"
    using assms b64_ulp_pos [of x] by simp
  then have "0 \<le> rint (x / b64_ulp x)"
    by (rule rint_ge)
  then show ?thesis
    using b64_ulp_pos [of x] by (simp add: b64_mag_def)
qed

lemma b64_mag_mono:
  assumes "0 < x" and "x \<le> y"
  shows "b64_mag x \<le> b64_mag y"
proof (cases "b64_exponent x = b64_exponent y")
  case True
  then have u: "b64_ulp x = b64_ulp y"
    by (simp add: b64_ulp_def)
  have "x / b64_ulp y \<le> y / b64_ulp y"
    using assms(2) b64_ulp_pos [of y] by (simp add: divide_right_mono)
  then have "rint (x / b64_ulp y) \<le> rint (y / b64_ulp y)"
    by (rule rint_mono)
  then have "real_of_int (rint (x / b64_ulp y)) \<le> real_of_int (rint (y / b64_ulp y))"
    by (simp only: of_int_le_iff)
  then show ?thesis
    using b64_ulp_pos [of y] by (simp add: b64_mag_def u mult_right_mono)
next
  case False
  with b64_exponent_mono [OF assms] have lt: "b64_exponent x + 1 \<le> b64_exponent y"
    by simp
  have y: "0 < y"
    using assms by linarith
  have "- 1022 \<le> b64_exponent x"
    by (simp add: b64_exponent_def)
  with lt have "- 1022 < b64_exponent y"
    by linarith
  with y have "2 powr of_int (b64_exponent y) \<le> y"
    by (rule b64_exponent_lower)
  then have "2 powr of_int (b64_exponent y) \<le> b64_mag y"
    by (rule b64_mag_lower)
  moreover have "(2::real) powr of_int (b64_exponent x + 1) \<le> 2 powr of_int (b64_exponent y)"
    using lt by (intro powr_mono) simp_all
  ultimately show ?thesis
    using b64_mag_upper [OF assms(1)] by linarith
qed

lemma b64_mono:
  assumes "x \<le> y"
  shows "b64 x \<le> b64 y"
proof -
  consider "0 < x" | "x = 0" | "x < 0" "y < 0" | "x < 0" "0 \<le> y"
    by linarith
  then show ?thesis
  proof cases
    case 1
    with assms have "b64_mag x \<le> b64_mag y" and "0 < y"
      by (simp_all add: b64_mag_mono)
    with 1 show ?thesis
      by (simp add: b64_def)
  next
    case 2
    with assms b64_mag_nonneg [of y] show ?thesis
      by (simp add: b64_def)
  next
    case 3
    with assms have "b64_mag (- y) \<le> b64_mag (- x)"
      by (intro b64_mag_mono) simp_all
    with 3 show ?thesis
      by (simp add: b64_def)
  next
    case 4
    with b64_mag_nonneg [of "- x"] b64_mag_nonneg [of y] show ?thesis
      by (simp add: b64_def)
  qed
qed

lemma b64_sign:
  "0 \<le> x \<Longrightarrow> Fin 0 \<le> b64 x" "x \<le> 0 \<Longrightarrow> b64 x \<le> Fin 0"
  using b64_mono [of 0 x] b64_mono [of x 0] by (simp_all add: b64_def)

lemma b64_not_NaN: "b64 x \<noteq> NaN"
  by (simp add: b64_def)


lemma b64_0: "b64 0 = Fin 0"
  by (simp add: b64_def)


lemma exp_7_10: "2 \<le> exp (7 / 10 :: real)"
proof -
  have "1 + 7 / 40 + (7 / 40)\<^sup>2 / 2 \<le> exp (7 / 40 :: real)"
    by (rule exp_lower_Taylor_quadratic) simp
  then have "(1 + 7 / 40 + (7 / 40)\<^sup>2 / 2) ^ 4 \<le> exp (7 / 40 :: real) ^ 4"
    by (intro power_mono) simp_all
  also have "exp (7 / 40 :: real) ^ 4 = exp (of_nat 4 * (7 / 40))"
    by (simp only: exp_of_nat_mult)
  also have "\<dots> = exp (7 / 10)"
    by simp
  finally have "(1 + 7 / 40 + (7 / 40)\<^sup>2 / 2) ^ 4 \<le> exp (7 / 10 :: real)" .
  moreover have "(2::real) \<le> (1 + 7 / 40 + (7 / 40)\<^sup>2 / 2) ^ 4"
    by (simp add: power2_eq_square power4_eq_xxxx)
  ultimately show ?thesis
    by linarith
qed

lemma exp_underflow:
  fixes a :: real
  assumes "a \<le> - 753"
  shows "\<bar>exp a\<bar> < 1 / 2 ^ 1075"
proof -
  have "(2::real) ^ 1075 \<le> exp (7 / 10) ^ 1075"
    using exp_7_10 by (intro power_mono) simp_all
  also have "\<dots> = exp (of_nat 1075 * (7 / 10))"
    by (simp only: exp_of_nat_mult)
  also have "\<dots> < exp (- a)"
    using assms by simp
  finally have "(2::real) ^ 1075 < exp (- a)" .
  then have "1 / exp (- a) < 1 / (2::real) ^ 1075"
    by (intro divide_strict_left_mono) simp_all
  then show ?thesis
    by (simp add: exp_minus inverse_eq_divide)
qed

lemma Exp_r_underflow:
  assumes "a \<le> - 753"
  shows "Exp_r b64 (Fin a) = Fin 0"
  using b64_underflow [OF exp_underflow [OF assms]] by (simp add: Exp_r_def rounded_def)

section \<open>The loops of the integral\<close>

lemma XSec_snd: "snd (XSec c e this interaction kps) = interaction"
  by (simp add: XSec_def Let_def)

lemma at_xy_at_xy: "at_xy (at_xy i a b) a' b' = at_xy i a' b'"
  by (simp add: at_xy_def Setx_def Sety_def)

lemma int_interval_head: "(i::int) < n \<Longrightarrow> {i..<n} = insert i {i + 1..<n}"
  by auto

lemma sum_int_head:
  fixes f :: "int \<Rightarrow> dbl"
  assumes "i < n"
  shows "sum f {i..<n} = f i + sum f {i + 1..<n}"
proof -
  have "sum f (insert i {i + 1..<n}) = f i + sum f {i + 1..<n}"
    by (rule sum.insert) auto
  with assms show ?thesis by (simp add: int_interval_head)
qed

lemma loop_y_result:
  "loop_y c e this kps dx dy xc ymin ny iy s =
     (if iy < ny then
        \<lparr>ls_interaction = at_xy (ls_interaction s) xc (ymin + Dbl_of_int (ny - 1) * dy),
         ls_xsec = ls_xsec s +
           (\<Sum>j = iy..<ny. dx * dy *
              fst (XSec c e this (at_xy (ls_interaction s) xc (ymin + Dbl_of_int j * dy)) kps)),
         ls_calls = ls_calls s @
           map (\<lambda>j. at_xy (ls_interaction s) xc (ymin + Dbl_of_int j * dy)) [iy..ny - 1]\<rparr>
      else s)"
proof (induction c e this kps dx dy xc ymin ny iy s rule: loop_y.induct)
  case (1 c e this kps dx dy xc ymin ny iy s)
  show ?case
  proof (cases "iy < ny")
    case False
    then show ?thesis by (simp add: loop_y.simps)
  next
    case True
    let ?p = "\<lambda>j. at_xy (ls_interaction s) xc (ymin + Dbl_of_int j * dy)"
    let ?f = "\<lambda>j. dx * dy * fst (XSec c e this (?p j) kps)"
    let ?s' = "\<lparr>ls_interaction = ?p iy, ls_xsec = ls_xsec s + ?f iy,
                ls_calls = ls_calls s @ [?p iy]\<rparr>"
    have step: "loop_y c e this kps dx dy xc ymin ny iy s =
                loop_y c e this kps dx dy xc ymin ny (iy + 1) ?s'"
      using True
      by (subst loop_y.simps) (simp add: Let_def XSec_snd at_xy_def)
    have ih: "loop_y c e this kps dx dy xc ymin ny (iy + 1) ?s' =
      (if iy + 1 < ny then
        \<lparr>ls_interaction = at_xy (ls_interaction ?s') xc (ymin + Dbl_of_int (ny - 1) * dy),
         ls_xsec = ls_xsec ?s' +
           (\<Sum>j = iy + 1..<ny. dx * dy *
              fst (XSec c e this (at_xy (ls_interaction ?s') xc (ymin + Dbl_of_int j * dy)) kps)),
         ls_calls = ls_calls ?s' @
           map (\<lambda>j. at_xy (ls_interaction ?s') xc (ymin + Dbl_of_int j * dy)) [iy + 1..ny - 1]\<rparr>
      else ?s')"
      using "1.IH" [OF True refl refl refl refl, of ] True
      by (simp add: XSec_snd at_xy_def)
    show ?thesis
    proof (cases "iy + 1 < ny")
      case True
      have l: "[iy..ny - 1] = iy # [iy + 1..ny - 1]"
        using True by (simp add: upto_rec1)
      show ?thesis
        using True \<open>iy < ny\<close>
        by (simp add: step ih at_xy_at_xy sum_int_head [of iy ny] l add.assoc)
    next
      case False
      with True have eq: "ny - 1 = iy" by simp
      have l: "[iy..ny - 1] = [iy]"
        by (simp add: eq)
      have e: "{iy + 1..<ny} = {}"
        using False by simp
      show ?thesis
        using True False
        by (simp add: step ih eq l sum_int_head [of iy ny] e)
    qed
  qed
qed


lemma loop_x_result:
  assumes ny: "0 < ny"
  shows "loop_x c e this kps dx dy xmin ymin nx ny ix s =
     (if ix < nx then
        \<lparr>ls_interaction = at_xy (ls_interaction s) (xmin + Dbl_of_int (nx - 1) * dx)
           (ymin + Dbl_of_int (ny - 1) * dy),
         ls_xsec = ls_xsec s +
           (\<Sum>i = ix..<nx. \<Sum>j = 0..<ny. dx * dy *
              fst (XSec c e this
                (at_xy (ls_interaction s) (xmin + Dbl_of_int i * dx) (ymin + Dbl_of_int j * dy))
                kps)),
         ls_calls = ls_calls s @
           concat (map (\<lambda>i. map (\<lambda>j. at_xy (ls_interaction s) (xmin + Dbl_of_int i * dx)
             (ymin + Dbl_of_int j * dy)) [0..ny - 1]) [ix..nx - 1])\<rparr>
      else s)"
  using ny
proof (induction c e this kps dx dy xmin ymin nx ny ix s rule: loop_x.induct)
  case (1 c e this kps dx dy xmin ymin nx ny ix s)
  show ?case
  proof (cases "ix < nx")
    case False
    then show ?thesis by (simp add: loop_x.simps)
  next
    case True
    let ?p = "\<lambda>i j. at_xy (ls_interaction s) (xmin + Dbl_of_int i * dx)
                (ymin + Dbl_of_int j * dy)"
    let ?f = "\<lambda>i j. dx * dy * fst (XSec c e this (?p i j) kps)"
    let ?s' = "\<lparr>ls_interaction = ?p ix (ny - 1),
                ls_xsec = ls_xsec s + (\<Sum>j = 0..<ny. ?f ix j),
                ls_calls = ls_calls s @ map (?p ix) [0..ny - 1]\<rparr>"
    have inner: "loop_y c e this kps dx dy (xmin + Dbl_of_int ix * dx) ymin ny 0 s = ?s'"
      using \<open>0 < ny\<close> by (simp add: loop_y_result)
    have step: "loop_x c e this kps dx dy xmin ymin nx ny ix s =
                loop_x c e this kps dx dy xmin ymin nx ny (ix + 1) ?s'"
      using True by (subst loop_x.simps) (simp add: Let_def inner)
    have ih: "loop_x c e this kps dx dy xmin ymin nx ny (ix + 1) ?s' =
      (if ix + 1 < nx then
        \<lparr>ls_interaction = ?p (nx - 1) (ny - 1),
         ls_xsec = ls_xsec ?s' + (\<Sum>i = ix + 1..<nx. \<Sum>j = 0..<ny. ?f i j),
         ls_calls = ls_calls ?s' @ concat (map (\<lambda>i. map (?p i) [0..ny - 1]) [ix + 1..nx - 1])\<rparr>
      else ?s')"
      using "1.IH" [OF True refl \<open>0 < ny\<close>] inner
      by (simp add: at_xy_at_xy)
    show ?thesis
    proof (cases "ix + 1 < nx")
      case True
      have l: "[ix..nx - 1] = ix # [ix + 1..nx - 1]"
        using True by (simp add: upto_rec1)
      show ?thesis
        using True \<open>ix < nx\<close>
        by (simp add: step ih sum_int_head [of ix nx] l add.assoc)
    next
      case False
      with True have eq: "nx - 1 = ix" by simp
      have l: "[ix..nx - 1] = [ix]"
        by (simp add: eq)
      have e: "{ix + 1..<nx} = {}"
        using False by simp
      show ?thesis
        using True False
        by (simp add: step ih eq l sum_int_head [of ix nx] e)
    qed
  qed
qed

lemma Integral_empty:
  assumes "1 - Fin (kMuonMass c) / ProbeE (InitState interaction) - Fin (kASmallNum c)
           \<le> Fin (kPionMass c) / ProbeE (InitState interaction) + Fin (kASmallNum c)"
  shows "Integral c e this interaction =
         \<lparr>ls_interaction = interaction, ls_xsec = 0, ls_calls = []\<rparr>"
  using assms by (simp add: Integral_def Let_def)

lemma Integral_grid:
  assumes "\<not> 1 - Fin (kMuonMass c) / ProbeE (InitState interaction) - Fin (kASmallNum c)
           \<le> Fin (kPionMass c) / ProbeE (InitState interaction) + Fin (kASmallNum c)"
  defines "E \<equiv> ProbeE (InitState interaction)"
  defines "xmin \<equiv> Fin (kASmallNum c)"
  defines "xmax \<equiv> 1 - Fin (kASmallNum c)"
  defines "ymin \<equiv> Fin (kPionMass c) / E + Fin (kASmallNum c)"
  defines "ymax \<equiv> 1 - Fin (kMuonMass c) / E - Fin (kASmallNum c)"
  defines "dx \<equiv> (xmax - xmin) / Fin 299"
  defines "dy \<equiv> (ymax - ymin) / Fin 299"
  shows "Integral c e this interaction =
     \<lparr>ls_interaction = at_xy interaction (xmin + Fin 299 * dx) (ymin + Fin 299 * dy),
      ls_xsec = (\<Sum>ix = 0..<300. \<Sum>iy = 0..<300. dx * dy *
         fst (XSec c e this
           (at_xy interaction (xmin + Dbl_of_int ix * dx) (ymin + Dbl_of_int iy * dy)) kPSxyfE)),
      ls_calls = concat (map (\<lambda>ix. map (\<lambda>iy.
         at_xy interaction (xmin + Dbl_of_int ix * dx) (ymin + Dbl_of_int iy * dy))
           [0..299]) [0..299])\<rparr>"
  using assms(1) unfolding E_def xmin_def xmax_def ymin_def ymax_def dx_def dy_def
  by (simp add: Integral_def Let_def loop_x_result Dbl_of_int_def)

lemma Integral_no_grid:
  assumes "max_f (Integral_y_range c (ProbeE (InitState interaction)))
           \<le> min_f (Integral_y_range c (ProbeE (InitState interaction)))"
  shows "Integral c e this interaction =
         \<lparr>ls_interaction = interaction, ls_xsec = 0, ls_calls = []\<rparr>"
  using assms by (simp add: Integral_empty Integral_y_range_def)

lemma Integral_on_grid:
  assumes "\<not> max_f (Integral_y_range c (ProbeE (InitState interaction)))
           \<le> min_f (Integral_y_range c (ProbeE (InitState interaction)))"
  shows "Integral c e this interaction =
     \<lparr>ls_interaction = grid_point c interaction 299 299,
      ls_xsec = grid_sum c e this interaction,
      ls_calls = concat (map (\<lambda>ix. map (\<lambda>iy. grid_point c interaction ix iy) [0..299])
        [0..299])\<rparr>"
proof -
  have ne: "\<not> 1 - Fin (kMuonMass c) / ProbeE (InitState interaction) - Fin (kASmallNum c)
           \<le> Fin (kPionMass c) / ProbeE (InitState interaction) + Fin (kASmallNum c)"
    using assms by (simp add: Integral_y_range_def)
  have d: "Dbl_of_int (300 - 1) = Fin 299" "Dbl_of_int 299 = Fin 299"
    by (simp_all add: Dbl_of_int_def)
  show ?thesis
    unfolding Integral_grid [OF ne] grid_point_def grid_sum_def grid_coord_def grid_step_def
      Integral_x_range_def Integral_y_range_def d
    by simp
qed

section \<open>The rounded functions\<close>

lemma rounded_Fin [simp]: "rounded Fin v = v"
  by (cases v) (simp_all add: rounded_def)

lemma ops_exact [simp]:
  "add_r Fin a b = a + b" "sub_r Fin a b = a - b" "mul_r Fin a b = a * b"
  "div_r Fin a b = a / b" "Exp_r Fin a = TMath_Exp a" "Power2_r Fin a = TMath_Power2 a"
  by (simp_all add: add_r_def sub_r_def mul_r_def div_r_def Exp_r_def Power2_r_def)

lemma DFR_t_integral_exact: "DFR_t_integral_r Fin c b Epi = DFR_t_integral c b Epi"
  by (simp add: DFR_t_integral_r_def DFR_t_integral_def DFR_tmin_r_def DFR_tmin_def Let_def)

lemma XSec_exact: "XSec_r Fin c e this interaction kps = XSec c e this interaction kps"
  by (simp add: XSec_r_def XSec_def DFR_t_integral_exact Let_def)

lemma loop_y_exact:
  "loop_y_r Fin c e this kps dx dy xc ymin ny iy s = loop_y c e this kps dx dy xc ymin ny iy s"
proof (induction c e this kps dx dy xc ymin ny iy s rule: loop_y.induct)
  case (1 c e this kps dx dy xc ymin ny iy s)
  show ?case
  proof (cases "iy < ny")
    case True
    show ?thesis
      using True "1.IH" [OF True refl refl refl refl]
      by (subst loop_y_r.simps, subst loop_y.simps) (simp add: Let_def XSec_exact)
  next
    case False
    then show ?thesis
      by (subst loop_y_r.simps, subst loop_y.simps) simp
  qed
qed

lemma loop_x_exact:
  "loop_x_r Fin c e this kps dx dy xmin ymin nx ny ix s
     = loop_x c e this kps dx dy xmin ymin nx ny ix s"
proof (induction c e this kps dx dy xmin ymin nx ny ix s rule: loop_x.induct)
  case (1 c e this kps dx dy xmin ymin nx ny ix s)
  show ?case
  proof (cases "ix < nx")
    case True
    show ?thesis
      using True "1.IH" [OF True refl]
      by (subst loop_x_r.simps, subst loop_x.simps) (simp add: Let_def loop_y_exact)
  next
    case False
    then show ?thesis
      by (subst loop_x_r.simps, subst loop_x.simps) simp
  qed
qed

lemma Integral_exact: "Integral_r Fin c e this interaction = Integral c e this interaction"
  by (simp add: Integral_r_def Integral_def Let_def loop_x_exact)

lemma XSec_r_snd: "snd (XSec_r rnd c e this interaction kps) = interaction"
  by (simp add: XSec_r_def Let_def)

lemma loop_y_r_result:
  "loop_y_r rnd c e this kps dx dy xc ymin ny iy s =
     (if iy < ny then
        \<lparr>ls_interaction = at_xy (ls_interaction s) xc
           (add_r rnd ymin (mul_r rnd (Dbl_of_int (ny - 1)) dy)),
         ls_xsec = foldl (\<lambda>a p. add_r rnd a (mul_r rnd (mul_r rnd dx dy)
               (fst (XSec_r rnd c e this p kps)))) (ls_xsec s)
           (map (\<lambda>j. at_xy (ls_interaction s) xc
              (add_r rnd ymin (mul_r rnd (Dbl_of_int j) dy))) [iy..ny - 1]),
         ls_calls = ls_calls s @
           map (\<lambda>j. at_xy (ls_interaction s) xc
              (add_r rnd ymin (mul_r rnd (Dbl_of_int j) dy))) [iy..ny - 1]\<rparr>
      else s)"
proof (induction rnd c e this kps dx dy xc ymin ny iy s rule: loop_y_r.induct)
  case (1 rnd c e this kps dx dy xc ymin ny iy s)
  show ?case
  proof (cases "iy < ny")
    case False
    then show ?thesis by (simp add: loop_y_r.simps)
  next
    case True
    let ?p = "\<lambda>j. at_xy (ls_interaction s) xc (add_r rnd ymin (mul_r rnd (Dbl_of_int j) dy))"
    let ?f = "\<lambda>a p. add_r rnd a (mul_r rnd (mul_r rnd dx dy) (fst (XSec_r rnd c e this p kps)))"
    let ?s' = "\<lparr>ls_interaction = ?p iy, ls_xsec = ?f (ls_xsec s) (?p iy),
                ls_calls = ls_calls s @ [?p iy]\<rparr>"
    have step: "loop_y_r rnd c e this kps dx dy xc ymin ny iy s =
                loop_y_r rnd c e this kps dx dy xc ymin ny (iy + 1) ?s'"
      using True
      by (subst loop_y_r.simps) (simp add: Let_def XSec_r_snd at_xy_def)
    have ih: "loop_y_r rnd c e this kps dx dy xc ymin ny (iy + 1) ?s' =
      (if iy + 1 < ny then
        \<lparr>ls_interaction = ?p (ny - 1),
         ls_xsec = foldl ?f (ls_xsec ?s') (map ?p [iy + 1..ny - 1]),
         ls_calls = ls_calls ?s' @ map ?p [iy + 1..ny - 1]\<rparr>
      else ?s')"
      using "1.IH" [OF True refl refl refl refl] True
      by (simp add: XSec_r_snd at_xy_def at_xy_at_xy Setx_def Sety_def)
    show ?thesis
    proof (cases "iy + 1 < ny")
      case True
      have l: "[iy..ny - 1] = iy # [iy + 1..ny - 1]"
        using True by (simp add: upto_rec1)
      show ?thesis
        using True \<open>iy < ny\<close> by (simp add: step ih l)
    next
      case False
      with True have eq: "ny - 1 = iy" by simp
      have l: "[iy..ny - 1] = [iy]"
        by (simp add: eq)
      show ?thesis
        using True False by (simp add: step ih eq l)
    qed
  qed
qed

lemma loop_x_r_result:
  assumes ny: "0 < ny"
  shows "loop_x_r rnd c e this kps dx dy xmin ymin nx ny ix s =
     (if ix < nx then
        \<lparr>ls_interaction = at_xy (ls_interaction s)
           (add_r rnd xmin (mul_r rnd (Dbl_of_int (nx - 1)) dx))
           (add_r rnd ymin (mul_r rnd (Dbl_of_int (ny - 1)) dy)),
         ls_xsec = foldl (\<lambda>a p. add_r rnd a (mul_r rnd (mul_r rnd dx dy)
               (fst (XSec_r rnd c e this p kps)))) (ls_xsec s)
           (concat (map (\<lambda>i. map (\<lambda>j. at_xy (ls_interaction s)
              (add_r rnd xmin (mul_r rnd (Dbl_of_int i) dx))
              (add_r rnd ymin (mul_r rnd (Dbl_of_int j) dy))) [0..ny - 1]) [ix..nx - 1])),
         ls_calls = ls_calls s @
           concat (map (\<lambda>i. map (\<lambda>j. at_xy (ls_interaction s)
              (add_r rnd xmin (mul_r rnd (Dbl_of_int i) dx))
              (add_r rnd ymin (mul_r rnd (Dbl_of_int j) dy))) [0..ny - 1]) [ix..nx - 1])\<rparr>
      else s)"
  using ny
proof (induction rnd c e this kps dx dy xmin ymin nx ny ix s rule: loop_x_r.induct)
  case (1 rnd c e this kps dx dy xmin ymin nx ny ix s)
  show ?case
  proof (cases "ix < nx")
    case False
    then show ?thesis by (simp add: loop_x_r.simps)
  next
    case True
    let ?p = "\<lambda>i j. at_xy (ls_interaction s) (add_r rnd xmin (mul_r rnd (Dbl_of_int i) dx))
                (add_r rnd ymin (mul_r rnd (Dbl_of_int j) dy))"
    let ?f = "\<lambda>a p. add_r rnd a (mul_r rnd (mul_r rnd dx dy) (fst (XSec_r rnd c e this p kps)))"
    let ?s' = "\<lparr>ls_interaction = ?p ix (ny - 1),
                ls_xsec = foldl ?f (ls_xsec s) (map (?p ix) [0..ny - 1]),
                ls_calls = ls_calls s @ map (?p ix) [0..ny - 1]\<rparr>"
    have inner: "loop_y_r rnd c e this kps dx dy (add_r rnd xmin (mul_r rnd (Dbl_of_int ix) dx))
        ymin ny 0 s = ?s'"
      using \<open>0 < ny\<close> by (simp add: loop_y_r_result)
    have step: "loop_x_r rnd c e this kps dx dy xmin ymin nx ny ix s =
                loop_x_r rnd c e this kps dx dy xmin ymin nx ny (ix + 1) ?s'"
      using True by (subst loop_x_r.simps) (simp add: Let_def inner)
    have ih: "loop_x_r rnd c e this kps dx dy xmin ymin nx ny (ix + 1) ?s' =
      (if ix + 1 < nx then
        \<lparr>ls_interaction = ?p (nx - 1) (ny - 1),
         ls_xsec = foldl ?f (ls_xsec ?s')
           (concat (map (\<lambda>i. map (?p i) [0..ny - 1]) [ix + 1..nx - 1])),
         ls_calls = ls_calls ?s' @ concat (map (\<lambda>i. map (?p i) [0..ny - 1]) [ix + 1..nx - 1])\<rparr>
      else ?s')"
      using "1.IH" [OF True refl \<open>0 < ny\<close>] inner
      by (simp add: at_xy_at_xy)
    show ?thesis
    proof (cases "ix + 1 < nx")
      case True
      have l: "[ix..nx - 1] = ix # [ix + 1..nx - 1]"
        using True by (simp add: upto_rec1)
      show ?thesis
        using True \<open>ix < nx\<close> by (simp add: step ih l)
    next
      case False
      with True have eq: "nx - 1 = ix" by simp
      have l: "[ix..nx - 1] = [ix]"
        by (simp add: eq)
      show ?thesis
        using True False by (simp add: step ih eq l)
    qed
  qed
qed

lemma Integral_r_no_grid:
  assumes "max_f (Integral_y_range_r rnd c (ProbeE (InitState interaction)))
           \<le> min_f (Integral_y_range_r rnd c (ProbeE (InitState interaction)))"
  shows "Integral_r rnd c e this interaction =
         \<lparr>ls_interaction = interaction, ls_xsec = 0, ls_calls = []\<rparr>"
  using assms by (simp add: Integral_r_def Integral_y_range_r_def Let_def)

lemma Integral_r_on_grid:
  assumes "\<not> max_f (Integral_y_range_r rnd c (ProbeE (InitState interaction)))
           \<le> min_f (Integral_y_range_r rnd c (ProbeE (InitState interaction)))"
  shows "Integral_r rnd c e this interaction =
     \<lparr>ls_interaction = grid_point_r rnd c interaction 299 299,
      ls_xsec = grid_total_r rnd c e this interaction,
      ls_calls = grid_points_r rnd c interaction\<rparr>"
  using assms
  by (simp add: Integral_r_def Integral_y_range_r_def Integral_x_range_r_def Let_def
      loop_x_r_result grid_point_r_def grid_total_r_def grid_points_r_def grid_coord_r_def
      grid_step_r_def accumulate_r_def [abs_def])

lemma grid_coord_r_mono:
  assumes lo: "min_f r = Fin lo" and d: "grid_step_r b64 r = Fin d" "0 \<le> d"
    and ij: "0 \<le> i" "i \<le> j"
  shows "grid_coord_r b64 r i \<le> grid_coord_r b64 r j"
proof -
  have le: "of_int i * d \<le> of_int j * d"
    using ij d(2) by (intro mult_right_mono) simp_all
  have i0: "0 \<le> of_int i * d"
    using ij d(2) by simp
  have ab: "b64 (of_int i * d) \<le> b64 (of_int j * d)"
    using le by (rule b64_mono)
  have a0: "Fin 0 \<le> b64 (of_int i * d)"
    using i0 by (rule b64_sign)
  have m: "mul_r b64 (Dbl_of_int k) (Fin d) = b64 (of_int k * d)" for k
    by (simp add: mul_r_def rounded_def Dbl_of_int_def)
  show ?thesis
  proof (cases "b64 (of_int i * d)")
    case (Fin a)
    with a0 have a: "0 \<le> a" by simp
    show ?thesis
    proof (cases "b64 (of_int j * d)")
      case (Fin b)
      with ab \<open>b64 (of_int i * d) = Fin a\<close> have "lo + a \<le> lo + b"
        by simp
      then have "b64 (lo + a) \<le> b64 (lo + b)"
        by (rule b64_mono)
      then show ?thesis
        by (simp add: grid_coord_r_def lo d(1) m Fin \<open>b64 (of_int i * d) = Fin a\<close>
            add_r_def rounded_def)
    next
      case PInf
      have "b64 (lo + a) \<le> PInf"
        by (cases "b64 (lo + a)") (simp_all add: b64_not_NaN)
      then show ?thesis
        by (simp add: grid_coord_r_def lo d(1) m PInf \<open>b64 (of_int i * d) = Fin a\<close>
            add_r_def rounded_def)
    next
      case NInf
      with ab \<open>b64 (of_int i * d) = Fin a\<close> show ?thesis by simp
    next
      case NaN
      then show ?thesis by (simp add: b64_not_NaN)
    qed
  next
    case PInf
    with ab have "b64 (of_int j * d) = PInf"
      by (cases "b64 (of_int j * d)") simp_all
    with PInf show ?thesis
      by (simp add: grid_coord_r_def lo d(1) m add_r_def rounded_def)
  next
    case NInf
    with a0 show ?thesis by simp
  next
    case NaN
    then show ?thesis by (simp add: b64_not_NaN)
  qed
qed

lemma grid_point_r_fy:
  "fy (Kine (grid_point_r rnd c interaction ix iy))
     = grid_coord_r rnd (Integral_y_range_r rnd c (ProbeE (InitState interaction))) iy"
  by (simp add: grid_point_r_def at_xy_def Setx_def Sety_def)

lemma grid_points_r_mem:
  assumes "0 \<le> ix" "ix \<le> 299" "0 \<le> iy" "iy \<le> 299"
  shows "grid_point_r rnd c interaction ix iy \<in> set (grid_points_r rnd c interaction)"
proof -
  have "\<exists>x\<in>{0..299}. grid_point_r rnd c interaction ix iy
      \<in> grid_point_r rnd c interaction x ` {0..299}"
    using assms by (intro bexI [of _ ix] imageI) simp_all
  then show ?thesis
    by (simp add: grid_points_r_def)
qed

lemma concat_grid_mem:
  fixes f :: "int \<Rightarrow> int \<Rightarrow> 'a"
  assumes "p \<in> set (concat (map (\<lambda>i. map (\<lambda>j. f i j) [0..n]) [0..m]))"
  shows "\<exists>i j. 0 \<le> i \<and> i \<le> m \<and> 0 \<le> j \<and> j \<le> n \<and> p = f i j"
proof -
  from assms obtain i j where "i \<in> set [0..m]" "j \<in> set [0..n]" "p = f i j"
    by auto
  then have "0 \<le> i \<and> i \<le> m \<and> 0 \<le> j \<and> j \<le> n \<and> p = f i j"
    by simp
  then show ?thesis by blast
qed

lemma grid_points_r_cases:
  assumes "p \<in> set (grid_points_r rnd c interaction)"
  shows "\<exists>ix iy. 0 \<le> ix \<and> ix \<le> 299 \<and> 0 \<le> iy \<and> iy \<le> 299
     \<and> p = grid_point_r rnd c interaction ix iy"
  using assms unfolding grid_points_r_def by (rule concat_grid_mem)

lemma grid_points_r_length: "length (grid_points_r rnd c interaction) = 300 * 300"
  by (simp add: grid_points_r_def length_concat comp_def sum_list_triv)

section \<open>Evaluations in binary64\<close>

lemma binary64_constants_nearest:
  "b64 (kGF2 example_constants) = Fin (kGF2 binary64_constants)"
  "b64 (kNucleonMass example_constants) = Fin (kNucleonMass binary64_constants)"
  "b64 (kPionMass example_constants) = Fin (kPionMass binary64_constants)"
  "b64 (kMuonMass example_constants) = Fin (kMuonMass binary64_constants)"
  "b64 (kASmallNum example_constants) = Fin (kASmallNum binary64_constants)"
  "mul_r b64 (Fin (kPionMass binary64_constants)) (Fin (kPionMass binary64_constants))
     = Fin (kPionMass2 binary64_constants)"
proof -
  show "b64 (kGF2 example_constants) = Fin (kGF2 binary64_constants)"
    using b64_eval_neg [of 33 "1.3604656 / 10 ^ 10" 5263046369720026]
    by (simp add: example_constants_def binary64_constants_def)
  show "b64 (kNucleonMass example_constants) = Fin (kNucleonMass binary64_constants)"
    using b64_eval_neg [of 1 "0.9389187" 8457027814902381]
    by (simp add: example_constants_def binary64_constants_def)
  show "b64 (kPionMass example_constants) = Fin (kPionMass binary64_constants)"
    using b64_eval_neg [of 3 "0.13957018" 5028545685120264]
    by (simp add: example_constants_def binary64_constants_def)
  show "b64 (kMuonMass example_constants) = Fin (kMuonMass binary64_constants)"
    using b64_eval_neg [of 4 "0.105658357" 7613486995420461]
    by (simp add: example_constants_def binary64_constants_def)
  show "b64 (kASmallNum example_constants) = Fin (kASmallNum binary64_constants)"
    using b64_eval_neg [of 20 "1 / 10 ^ 6" 4722366482869645]
    by (simp add: example_constants_def binary64_constants_def)
  show "mul_r b64 (Fin (kPionMass binary64_constants)) (Fin (kPionMass binary64_constants))
     = Fin (kPionMass2 binary64_constants)"
    using b64_eval_neg [of 6 "(5028545685120264 / 2 ^ 55) * (5028545685120264 / 2 ^ 55)"
        5614680211283668]
    by (simp add: mul_r_def rounded_def binary64_constants_def)
qed

lemma binary64_inputs_nearest:
  "b64 0.1 = fx (Kine binary64_interaction)"
  "b64 0.3 = fy (Kine binary64_interaction)"
  "b64 1.1 = fMa binary64_model"
proof -
  show "b64 0.1 = fx (Kine binary64_interaction)"
    using b64_eval_neg [of 4 "0.1" 7205759403792794]
    by (simp add: binary64_interaction_def)
  show "b64 0.3 = fy (Kine binary64_interaction)"
    using b64_eval_neg [of 2 "0.3" 5404319552844595]
    by (simp add: binary64_interaction_def)
  show "b64 1.1 = fMa binary64_model"
    using b64_eval_pos [of 0 "1.1" 4953959590107546]
    by (simp add: binary64_model_def)
qed


lemma x_range_binary64:
  "Integral_x_range_r b64 binary64_constants =
     \<lparr>min_f = Fin (kASmallNum binary64_constants),
      max_f = Fin (9007190247541737 / 2 ^ 53)\<rparr>"
proof -
  have a1: "sub_r b64 1 (Fin (kASmallNum binary64_constants)) = Fin (9007190247541737 / 2 ^ 53)"
    using b64_eval_neg [of 1 "1 - (4722366482869645 / 2 ^ 72)" 9007190247541737]
    by (simp add: sub_r_def rounded_def minus_dbl_def binary64_constants_def one_dbl_def)
  show ?thesis
    unfolding Integral_x_range_r_def a1 ..
qed

lemma x_grid_ends_binary64:
  "grid_coord_r b64 (Integral_x_range_r b64 binary64_constants) 299 =
     max_f (Integral_x_range_r b64 binary64_constants)"
proof -
  have b1: "sub_r b64 (Fin (9007190247541737 / 2 ^ 53)) (Fin (kASmallNum binary64_constants)) = Fin (9007181240342482 / 2 ^ 53)"
    using b64_eval_neg [of 1 "(9007190247541737 / 2 ^ 53) - (4722366482869645 / 2 ^ 72)" 9007181240342482]
    by (simp add: sub_r_def rounded_def minus_dbl_def binary64_constants_def)
  have b2: "div_r b64 (Fin (9007181240342482 / 2 ^ 53)) (Dbl_of_int (300 - 1)) = Fin (7711834105443730 / 2 ^ 61)"
    using b64_eval_neg [of 9 "(9007181240342482 / 2 ^ 53) / 299" 7711834105443730]
    by (simp add: div_r_def rounded_def Dbl_of_int_def)
  have b3: "mul_r b64 (Dbl_of_int 299) (Fin (7711834105443730 / 2 ^ 61)) = Fin (9007181240342482 / 2 ^ 53)"
    using b64_eval_neg [of 1 "299 * (7711834105443730 / 2 ^ 61)" 9007181240342482]
    by (simp add: mul_r_def rounded_def Dbl_of_int_def)
  have b4: "add_r b64 (Fin (kASmallNum binary64_constants)) (Fin (9007181240342482 / 2 ^ 53)) = Fin (9007190247541737 / 2 ^ 53)"
    using b64_eval_neg [of 1 "(4722366482869645 / 2 ^ 72) + (9007181240342482 / 2 ^ 53)" 9007190247541737]
    by (simp add: add_r_def rounded_def binary64_constants_def)
  show ?thesis
    unfolding grid_coord_r_def grid_step_r_def x_range_binary64 Range1D_t.simps b1 b2 b3 b4 ..
qed

lemma y_range_at_7_5:
  "Integral_y_range_r b64 binary64_constants (Fin 7.5) =
     \<lparr>min_f = Fin (5364070294504434 / 2 ^ 58),
      max_f = Fin (8880298797618063 / 2 ^ 53)\<rparr>"
proof -
  have a1: "div_r b64 (Fin (kPionMass binary64_constants)) (Fin 7.5) = Fin (5363782064128282 / 2 ^ 58)"
    using b64_eval_neg [of 6 "(5028545685120264 / 2 ^ 55) / 7.5" 5363782064128282]
    by (simp add: div_r_def rounded_def binary64_constants_def)
  have a2: "add_r b64 (Fin (5363782064128282 / 2 ^ 58)) (Fin (kASmallNum binary64_constants)) = Fin (5364070294504434 / 2 ^ 58)"
    using b64_eval_neg [of 6 "(5363782064128282 / 2 ^ 58) + (4722366482869645 / 2 ^ 72)" 5364070294504434]
    by (simp add: add_r_def rounded_def binary64_constants_def)
  have a3: "div_r b64 (Fin (kMuonMass binary64_constants)) (Fin 7.5) = Fin (8121052795115158 / 2 ^ 59)"
    using b64_eval_neg [of 7 "(7613486995420461 / 2 ^ 56) / 7.5" 8121052795115158]
    by (simp add: div_r_def rounded_def binary64_constants_def)
  have a4: "sub_r b64 1 (Fin (8121052795115158 / 2 ^ 59)) = Fin (8880307804817318 / 2 ^ 53)"
    using b64_eval_neg [of 1 "1 - (8121052795115158 / 2 ^ 59)" 8880307804817318]
    by (simp add: sub_r_def rounded_def minus_dbl_def one_dbl_def)
  have a5: "sub_r b64 (Fin (8880307804817318 / 2 ^ 53)) (Fin (kASmallNum binary64_constants)) = Fin (8880298797618063 / 2 ^ 53)"
    using b64_eval_neg [of 1 "(8880307804817318 / 2 ^ 53) - (4722366482869645 / 2 ^ 72)" 8880298797618063]
    by (simp add: sub_r_def rounded_def minus_dbl_def binary64_constants_def)
  show ?thesis
    unfolding Integral_y_range_r_def a1 a2 a3 a4 a5 ..
qed

lemma y_step_at_7_5:
  "grid_step_r b64 (Integral_y_range_r b64 binary64_constants (Fin 7.5)) =
     Fin (7459678695097621 / 2 ^ 61)"
proof -
  have b1: "sub_r b64 (Fin (8880298797618063 / 2 ^ 53)) (Fin (5364070294504434 / 2 ^ 58)) = Fin (8712671600914799 / 2 ^ 53)"
    using b64_eval_neg [of 1 "(8880298797618063 / 2 ^ 53) - (5364070294504434 / 2 ^ 58)" 8712671600914799]
    by (simp add: sub_r_def rounded_def minus_dbl_def)
  have b2: "div_r b64 (Fin (8712671600914799 / 2 ^ 53)) (Dbl_of_int (300 - 1)) = Fin (7459678695097621 / 2 ^ 61)"
    using b64_eval_neg [of 9 "(8712671600914799 / 2 ^ 53) / 299" 7459678695097621]
    by (simp add: div_r_def rounded_def Dbl_of_int_def)
  show ?thesis
    unfolding grid_step_r_def y_range_at_7_5 Range1D_t.simps b1 b2 ..
qed

lemma y_coord_299_at_7_5:
  "grid_coord_r b64 (Integral_y_range_r b64 binary64_constants (Fin 7.5)) 299 =
     Fin (8880298797618064 / 2 ^ 53)"
proof -
  have c1: "mul_r b64 (Dbl_of_int 299) (Fin (7459678695097621 / 2 ^ 61)) = Fin (8712671600914800 / 2 ^ 53)"
    using b64_eval_neg [of 1 "299 * (7459678695097621 / 2 ^ 61)" 8712671600914800]
    by (simp add: mul_r_def rounded_def Dbl_of_int_def)
  have c2: "add_r b64 (Fin (5364070294504434 / 2 ^ 58)) (Fin (8712671600914800 / 2 ^ 53)) = Fin (8880298797618064 / 2 ^ 53)"
    using b64_eval_neg [of 1 "(5364070294504434 / 2 ^ 58) + (8712671600914800 / 2 ^ 53)" 8880298797618064]
    by (simp add: add_r_def rounded_def)
  show ?thesis
    unfolding grid_coord_r_def y_step_at_7_5
    unfolding y_range_at_7_5 Range1D_t.simps c1 c2 ..
qed

lemma y_range_at_12:
  "Integral_y_range_r b64 binary64_constants (Fin 12) =
     \<lparr>min_f = Fin (6705304040912655 / 2 ^ 59),
      max_f = Fin (8927883091339441 / 2 ^ 53)\<rparr>"
proof -
  have a1: "div_r b64 (Fin (kPionMass binary64_constants)) (Fin 12) = Fin (6704727580160352 / 2 ^ 59)"
    using b64_eval_neg [of 7 "(5028545685120264 / 2 ^ 55) / 12" 6704727580160352]
    by (simp add: div_r_def rounded_def binary64_constants_def)
  have a2: "add_r b64 (Fin (6704727580160352 / 2 ^ 59)) (Fin (kASmallNum binary64_constants)) = Fin (6705304040912655 / 2 ^ 59)"
    using b64_eval_neg [of 7 "(6704727580160352 / 2 ^ 59) + (4722366482869645 / 2 ^ 72)" 6705304040912655]
    by (simp add: add_r_def rounded_def binary64_constants_def)
  have a3: "div_r b64 (Fin (kMuonMass binary64_constants)) (Fin 12) = Fin (5075657996946974 / 2 ^ 59)"
    using b64_eval_neg [of 7 "(7613486995420461 / 2 ^ 56) / 12" 5075657996946974]
    by (simp add: div_r_def rounded_def binary64_constants_def)
  have a4: "sub_r b64 1 (Fin (5075657996946974 / 2 ^ 59)) = Fin (8927892098538696 / 2 ^ 53)"
    using b64_eval_neg [of 1 "1 - (5075657996946974 / 2 ^ 59)" 8927892098538696]
    by (simp add: sub_r_def rounded_def minus_dbl_def one_dbl_def)
  have a5: "sub_r b64 (Fin (8927892098538696 / 2 ^ 53)) (Fin (kASmallNum binary64_constants)) = Fin (8927883091339441 / 2 ^ 53)"
    using b64_eval_neg [of 1 "(8927892098538696 / 2 ^ 53) - (4722366482869645 / 2 ^ 72)" 8927883091339441]
    by (simp add: sub_r_def rounded_def minus_dbl_def binary64_constants_def)
  show ?thesis
    unfolding Integral_y_range_r_def a1 a2 a3 a4 a5 ..
qed

lemma y_step_at_12:
  "grid_step_r b64 (Integral_y_range_r b64 binary64_constants (Fin 12)) =
     Fin (7554236973977412 / 2 ^ 61)"
proof -
  have b1: "sub_r b64 (Fin (8927883091339441 / 2 ^ 53)) (Fin (6705304040912655 / 2 ^ 59)) = Fin (8823112715700181 / 2 ^ 53)"
    using b64_eval_neg [of 1 "(8927883091339441 / 2 ^ 53) - (6705304040912655 / 2 ^ 59)" 8823112715700181]
    by (simp add: sub_r_def rounded_def minus_dbl_def)
  have b2: "div_r b64 (Fin (8823112715700181 / 2 ^ 53)) (Dbl_of_int (300 - 1)) = Fin (7554236973977412 / 2 ^ 61)"
    using b64_eval_neg [of 9 "(8823112715700181 / 2 ^ 53) / 299" 7554236973977412]
    by (simp add: div_r_def rounded_def Dbl_of_int_def)
  show ?thesis
    unfolding grid_step_r_def y_range_at_12 Range1D_t.simps b1 b2 ..
qed

lemma y_coord_299_at_12:
  "grid_coord_r b64 (Integral_y_range_r b64 binary64_constants (Fin 12)) 299 =
     Fin (8927883091339440 / 2 ^ 53)"
proof -
  have c1: "mul_r b64 (Dbl_of_int 299) (Fin (7554236973977412 / 2 ^ 61)) = Fin (8823112715700180 / 2 ^ 53)"
    using b64_eval_neg [of 1 "299 * (7554236973977412 / 2 ^ 61)" 8823112715700180]
    by (simp add: mul_r_def rounded_def Dbl_of_int_def)
  have c2: "add_r b64 (Fin (6705304040912655 / 2 ^ 59)) (Fin (8823112715700180 / 2 ^ 53)) = Fin (8927883091339440 / 2 ^ 53)"
    using b64_eval_neg [of 1 "(6705304040912655 / 2 ^ 59) + (8823112715700180 / 2 ^ 53)" 8927883091339440]
    by (simp add: add_r_def rounded_def)
  show ?thesis
    unfolding grid_coord_r_def y_step_at_12
    unfolding y_range_at_12 Range1D_t.simps c1 c2 ..
qed




lemma tmin_at_0_001:
  "DFR_tmin_r b64 binary64_constants (Fin (4611686018427388 / 2 ^ 62)) =
     Fin (6675600885559354 / 2 ^ 46)"
proof -
  have t1: "mul_r b64 (Fin 0.5) (Fin (kPionMass2 binary64_constants)) = Fin (5614680211283668 / 2 ^ 59)"
    using b64_eval_neg [of 7 "0.5 * (5614680211283668 / 2 ^ 58)" 5614680211283668]
    by (simp add: mul_r_def rounded_def binary64_constants_def)
  have t2: "div_r b64 (Fin (5614680211283668 / 2 ^ 59)) (Fin (4611686018427388 / 2 ^ 62)) = Fin (5483086143831707 / 2 ^ 49)"
    using b64_eval_pos [of 3 "(5614680211283668 / 2 ^ 59) / (4611686018427388 / 2 ^ 62)" 5483086143831707]
    by (simp add: div_r_def rounded_def)
  have t3: "Power2_r b64 (Fin (5483086143831707 / 2 ^ 49)) = Fin (6675600885559354 / 2 ^ 46)"
    using b64_eval_pos [of 6 "(5483086143831707 / 2 ^ 49) * (5483086143831707 / 2 ^ 49)" 6675600885559354]
    by (simp add: Power2_r_def TMath_Power2_def rounded_def)
  show ?thesis
    unfolding DFR_tmin_r_def t1 t2 t3 ..
qed

lemma at_energy_simps [simp]:
  "ProbeE (InitState (at_energy interaction E)) = E"
  "Kine (at_energy interaction E) = Kine interaction"
  by (simp_all add: at_energy_def)



lemma t_integral_at_0_001:
  "DFR_t_integral_r b64 binary64_constants (Fin 8) (Fin (4611686018427388 / 2 ^ 62)) = Fin 0"
proof -
  have e1: "mul_r b64 (- Fin 8) (Fin (6675600885559354 / 2 ^ 46)) = Fin (- (6675600885559354 / 2 ^ 43))"
    using b64_eval_pos [of 9 "- ((- 8) * (6675600885559354 / 2 ^ 46))" 6675600885559354] b64_minus [of "- ((- 8) * (6675600885559354 / 2 ^ 46))"]
    by (simp add: mul_r_def rounded_def)
  have e2: "mul_r b64 (- Fin 8) (Fin 99) = Fin (- 792)"
    using b64_eval_pos [of 9 "- ((- 8) * 99)" 6966505673588736] b64_minus [of "- ((- 8) * 99)"]
    by (simp add: mul_r_def rounded_def)
  have x1: "Exp_r b64 (Fin (- (6675600885559354 / 2 ^ 43))) = Fin 0"
    by (rule Exp_r_underflow) simp
  have x2: "Exp_r b64 (Fin (- 792)) = Fin 0"
    by (rule Exp_r_underflow) simp
  have x3: "sub_r b64 (Fin 0) (Fin 0) = Fin 0"
    by (simp add: sub_r_def rounded_def minus_dbl_def b64_0)
  have x4: "div_r b64 (Fin 0) (Fin 8) = Fin 0"
    by (simp add: div_r_def rounded_def b64_0)
  show ?thesis
    unfolding DFR_t_integral_r_def Let_def tmin_at_0_001 e1 e2 x1 x2 x3 x4
    by simp
qed

section \<open>The validity gate and the frame of the two functions\<close>

text \<open>
  Claim C4. An interaction without the skip-process-check flag whose process is not
  diffractive gets the value 0 from \<open>XSec\<close>, for every phase-space tag and whatever its
  kinematics; and \<open>ValidProcess\<close> is true when the flag is set, and otherwise true
  exactly when the process is diffractive.
\<close>

theorem XSec_rejected_process:
  "(\<not> TestBit interaction kISkipProcessChk \<and> \<not> IsDiffractive (ProcInfo interaction)
      \<longrightarrow> fst (XSec c e this interaction kps) = 0)
   \<and> ValidProcess interaction =
       (if TestBit interaction kISkipProcessChk then True
        else IsDiffractive (ProcInfo interaction))"
  by (simp add: XSec_def ValidProcess_def)

theorem XSec_rejected_process_witness:
  "\<not> TestBit (example_interaction\<lparr>ProcInfo := \<lparr>IsDiffractive = False\<rparr>\<rparr>) kISkipProcessChk
   \<and> \<not> IsDiffractive (ProcInfo (example_interaction\<lparr>ProcInfo := \<lparr>IsDiffractive = False\<rparr>\<rparr>))
   \<and> fst (XSec example_constants example_externals example_model
        (example_interaction\<lparr>ProcInfo := \<lparr>IsDiffractive = False\<rparr>\<rparr>) kPSxyfE) = 0
   \<and> \<not> ValidProcess (example_interaction\<lparr>ProcInfo := \<lparr>IsDiffractive = False\<rparr>\<rparr>)"
  using XSec_rejected_process [of "example_interaction\<lparr>ProcInfo := \<lparr>IsDiffractive = False\<rparr>\<rparr>"
      example_constants example_externals example_model kPSxyfE]
  by (simp add: example_interaction_def TestBit_def)

text \<open>
  Claim C9. \<open>XSec\<close> leaves the interaction as it received it. \<open>Integral\<close> changes at
  most the two scaling variables \<open>x\<close> and \<open>y\<close> of the kinematics: the other kinematic
  variable, the initial state with its target, the process information and the flags
  are as before.
\<close>

theorem XSec_Integral_frame:
  "snd (XSec c e this interaction kps) = interaction
   \<and> (\<exists>xc yc. ls_interaction (Integral c e this interaction)
         = interaction\<lparr>Kine := (Kine interaction)\<lparr>fx := xc, fy := yc\<rparr>\<rparr>)
   \<and> ft (Kine (ls_interaction (Integral c e this interaction))) = ft (Kine interaction)
   \<and> InitState (ls_interaction (Integral c e this interaction)) = InitState interaction
   \<and> ProcInfo (ls_interaction (Integral c e this interaction)) = ProcInfo interaction
   \<and> fBits (ls_interaction (Integral c e this interaction)) = fBits interaction"
proof -
  have ex: "\<exists>xc yc. ls_interaction (Integral c e this interaction)
         = interaction\<lparr>Kine := (Kine interaction)\<lparr>fx := xc, fy := yc\<rparr>\<rparr>"
  proof (cases "max_f (Integral_y_range c (ProbeE (InitState interaction)))
           \<le> min_f (Integral_y_range c (ProbeE (InitState interaction)))")
    case True
    have "ls_interaction (Integral c e this interaction)
         = interaction\<lparr>Kine := (Kine interaction)\<lparr>fx := fx (Kine interaction),
             fy := fy (Kine interaction)\<rparr>\<rparr>"
      by (simp add: Integral_no_grid [OF True])
    then show ?thesis by blast
  next
    case False
    have "ls_interaction (Integral c e this interaction)
         = interaction\<lparr>Kine := (Kine interaction)\<lparr>
             fx := grid_coord (Integral_x_range c) 299,
             fy := grid_coord (Integral_y_range c (ProbeE (InitState interaction))) 299\<rparr>\<rparr>"
      by (simp add: Integral_on_grid [OF False] grid_point_def at_xy_def Setx_def Sety_def)
    then show ?thesis by blast
  qed
  then obtain xc yc where r: "ls_interaction (Integral c e this interaction)
         = interaction\<lparr>Kine := (Kine interaction)\<lparr>fx := xc, fy := yc\<rparr>\<rparr>"
    by blast
  from ex show ?thesis
    by (simp add: XSec_snd r)
qed

theorem XSec_Integral_frame_witness:
  "snd (XSec example_constants example_externals example_model example_interaction kPSxyfE)
     = example_interaction
   \<and> InitState (ls_interaction
        (Integral example_constants example_externals example_model example_interaction))
     = InitState example_interaction
   \<and> fBits (ls_interaction
        (Integral example_constants example_externals example_model example_interaction))
     = {kIAssumeFreeNucleon}"
  using XSec_Integral_frame [of example_constants example_externals example_model
      example_interaction kPSxyfE]
  by (simp add: example_interaction_def)

section \<open>The differential cross section: closed form and nuclear scaling\<close>

text \<open>
  Claim C1. For an interaction that the validity gate accepts, in the canonical
  parameterization and with the assume-free-nucleon flag set, \<open>XSec\<close> returns exactly
  the closed form of the specification:
  \<open>G\<^sub>F\<^sup>2 M / (16 \<pi>\<^sup>3) E (0.93 m\<^sub>\<pi>)\<^sup>2 (1 - y) (Ma\<^sup>2 / (Ma\<^sup>2 + Q2))\<^sup>2 \<sigma>(y E)\<^sup>2 T\<close>, where
  \<open>T\<close> is \<open>(exp (- \<beta> tmin) - exp (- \<beta> tmax)) / \<beta>\<close> if \<open>tmin < tmax\<close> and 0 otherwise.
\<close>

theorem XSec_canonical_free_nucleon:
  assumes "ValidProcess interaction"
    and "TestBit interaction kIAssumeFreeNucleon"
  shows "fst (XSec c e this interaction kPSxyfE) = XSec_closed_form c e this interaction"
  using assms
  by (simp add: XSec_def XSec_closed_form_def ValidKinematics_def Let_def
      DFR_t_integral_def DFR_tmin_def tmin_forms)

theorem XSec_canonical_free_nucleon_witness:
  "ValidProcess example_interaction
   \<and> TestBit example_interaction kIAssumeFreeNucleon
   \<and> fst (XSec example_constants example_externals example_model example_interaction kPSxyfE)
       = XSec_closed_form example_constants example_externals example_model
           example_interaction"
proof -
  have v: "ValidProcess example_interaction"
    by (simp add: ValidProcess_def example_interaction_def)
  have f: "TestBit example_interaction kIAssumeFreeNucleon"
    by (simp add: TestBit_def example_interaction_def)
  from XSec_canonical_free_nucleon [OF v f] v f show ?thesis
    by blast
qed

lemma ValidProcess_fBits:
  "(kISkipProcessChk \<in> B) = (kISkipProcessChk \<in> fBits interaction)
   \<Longrightarrow> ValidProcess (interaction\<lparr>fBits := B\<rparr>) = ValidProcess interaction"
  by (simp add: ValidProcess_def TestBit_def)

text \<open>
  Claim C5. For an interaction that the validity gate accepts and every phase-space
  tag, the value of \<open>XSec\<close> with the assume-free-nucleon bit unset is \<open>N\<close> times its
  value with the bit set, \<open>N\<close> being the proton count of the target if the struck
  nucleon is a proton and the neutron count otherwise. The Jacobian of the other file
  is taken not to read the bit.
\<close>

theorem XSec_nuclear_scaling:
  assumes "ValidProcess interaction"
    and "kps \<noteq> kPSxyfE \<Longrightarrow>
         Jacobian e (interaction\<lparr>fBits := fBits interaction - {kIAssumeFreeNucleon}\<rparr>) kPSxyfE kps
         = Jacobian e (interaction\<lparr>fBits := insert kIAssumeFreeNucleon (fBits interaction)\<rparr>)
             kPSxyfE kps"
  shows "fst (XSec c e this (interaction\<lparr>fBits := fBits interaction - {kIAssumeFreeNucleon}\<rparr>) kps)
     = Dbl_of_int (if IsProton e (HitNucPdg (Tgt (InitState interaction)))
                   then Z (Tgt (InitState interaction)) else N (Tgt (InitState interaction)))
       * fst (XSec c e this
           (interaction\<lparr>fBits := insert kIAssumeFreeNucleon (fBits interaction)\<rparr>) kps)"
proof -
  have v1: "ValidProcess (interaction\<lparr>fBits := fBits interaction - {kIAssumeFreeNucleon}\<rparr>)"
    using assms(1) by (simp add: ValidProcess_fBits)
  have v2: "ValidProcess (interaction\<lparr>fBits := insert kIAssumeFreeNucleon (fBits interaction)\<rparr>)"
    using assms(1) by (simp add: ValidProcess_fBits)
  show ?thesis
  proof (cases "kps = kPSxyfE")
    case True
    then show ?thesis
      using v1 v2
      by (simp add: XSec_def ValidKinematics_def Let_def TestBit_def dbl_mult_commute)
  next
    case False
    then show ?thesis
      using v1 v2 assms(2)
      by (simp add: XSec_def ValidKinematics_def Let_def TestBit_def dbl_mult_commute)
  qed
qed

theorem XSec_nuclear_scaling_witness:
  "ValidProcess example_interaction
   \<and> fst (XSec example_constants example_externals example_model
        (example_interaction\<lparr>fBits := {}\<rparr>) (kPSOther 0))
     = Fin 6 * fst (XSec example_constants example_externals example_model
        example_interaction (kPSOther 0))"
proof -
  have v: "ValidProcess example_interaction"
    by (simp add: ValidProcess_def example_interaction_def)
  have j: "Jacobian example_externals
      (example_interaction\<lparr>fBits := fBits example_interaction - {kIAssumeFreeNucleon}\<rparr>)
      kPSxyfE (kPSOther 0)
    = Jacobian example_externals
      (example_interaction\<lparr>fBits := insert kIAssumeFreeNucleon (fBits example_interaction)\<rparr>)
      kPSxyfE (kPSOther 0)"
    by (simp add: example_externals_def)
  have b1: "example_interaction\<lparr>fBits := fBits example_interaction - {kIAssumeFreeNucleon}\<rparr>
      = example_interaction\<lparr>fBits := {}\<rparr>"
    by (simp add: example_interaction_def)
  have b2: "example_interaction\<lparr>fBits := insert kIAssumeFreeNucleon (fBits example_interaction)\<rparr>
      = example_interaction"
    by (simp add: example_interaction_def)
  have n: "Dbl_of_int (if IsProton example_externals (HitNucPdg (Tgt (InitState example_interaction)))
                   then Z (Tgt (InitState example_interaction))
                   else N (Tgt (InitState example_interaction))) = Fin 6"
    by (simp add: example_interaction_def example_externals_def Dbl_of_int_def)
  from XSec_nuclear_scaling [OF v j, of example_constants example_model]
  have "fst (XSec example_constants example_externals example_model
        (example_interaction\<lparr>fBits := {}\<rparr>) (kPSOther 0))
     = Fin 6 * fst (XSec example_constants example_externals example_model
        example_interaction (kPSOther 0))"
    unfolding b1 b2 n .
  with v show ?thesis by blast
qed

section \<open>The integral: empty range and grid sum\<close>

lemma y_range_real_iff:
  fixes E a p m :: real
  assumes E: "0 < E" and d: "a < 1 / 2"
  shows "(1 - m / E - a \<le> p / E + a) = (E \<le> (p + m) / (1 - 2 * a))"
proof -
  have d': "0 < 1 - 2 * a"
    using d by simp
  have "(1 - m / E - a \<le> p / E + a) = (1 - 2 * a \<le> (p + m) / E)"
    by (auto simp add: add_divide_distrib)
  also have "\<dots> = ((1 - 2 * a) * E \<le> p + m)"
    using E by (simp only: pos_le_divide_eq)
  also have "\<dots> = (E * (1 - 2 * a) \<le> p + m)"
    by (simp only: mult.commute)
  also have "\<dots> = (E \<le> (p + m) / (1 - 2 * a))"
    using d' by (simp only: pos_le_divide_eq)
  finally show ?thesis .
qed

lemma y_range_Fin:
  assumes "E \<noteq> 0"
  shows "min_f (Integral_y_range c (Fin E)) = Fin (kPionMass c / E + kASmallNum c)"
    and "max_f (Integral_y_range c (Fin E)) = Fin (1 - kMuonMass c / E - kASmallNum c)"
  using assms by (simp_all add: Integral_y_range_def one_dbl_def minus_dbl_def)

lemma x_range_Fin:
  "min_f (Integral_x_range c) = Fin (kASmallNum c)"
  "max_f (Integral_x_range c) = Fin (1 - kASmallNum c)"
  by (simp_all add: Integral_x_range_def one_dbl_def minus_dbl_def)

lemma y_range_empty_iff:
  assumes "0 < E" and "kASmallNum c < 1 / 2"
  shows "(max_f (Integral_y_range c (Fin E)) \<le> min_f (Integral_y_range c (Fin E)))
       = (E \<le> threshold c)"
proof -
  have "E \<noteq> 0"
    using assms(1) by simp
  then show ?thesis
    using y_range_real_iff [OF assms]
    by (simp add: y_range_Fin threshold_def)
qed

text \<open>
  Claim C3. When the range of \<open>y\<close> is empty, that is when
  \<open>1 - m\<^sub>\<mu> / E - \<epsilon> \<le> m\<^sub>\<pi> / E + \<epsilon>\<close>, \<open>Integral\<close> returns exactly 0 and calls \<open>XSec\<close> at no
  grid point. For an incident energy \<open>E > 0\<close> (and \<open>\<epsilon> < 1/2\<close>) the range is empty exactly
  when \<open>E\<close> is at or below the threshold \<open>(m\<^sub>\<pi> + m\<^sub>\<mu>) / (1 - 2 \<epsilon>)\<close>.
\<close>

theorem Integral_empty_y_range:
  "(max_f (Integral_y_range c (ProbeE (InitState interaction)))
      \<le> min_f (Integral_y_range c (ProbeE (InitState interaction)))
     \<longrightarrow> Integral c e this interaction
           = \<lparr>ls_interaction = interaction, ls_xsec = 0, ls_calls = []\<rparr>)
   \<and> (0 < E \<and> kASmallNum c < 1 / 2
     \<longrightarrow> (max_f (Integral_y_range c (Fin E)) \<le> min_f (Integral_y_range c (Fin E)))
         = (E \<le> threshold c))"
  using y_range_empty_iff [of E c] by (auto simp add: Integral_no_grid)

theorem Integral_empty_y_range_witness:
  "max_f (Integral_y_range example_constants (Fin 0.2))
      \<le> min_f (Integral_y_range example_constants (Fin 0.2))
   \<and> Integral example_constants example_externals example_model
       (example_interaction\<lparr>InitState := (InitState example_interaction)\<lparr>ProbeE := Fin 0.2\<rparr>\<rparr>)
     = \<lparr>ls_interaction =
          example_interaction\<lparr>InitState := (InitState example_interaction)\<lparr>ProbeE := Fin 0.2\<rparr>\<rparr>,
        ls_xsec = 0, ls_calls = []\<rparr>
   \<and> (0.2::real) \<le> threshold example_constants"
proof -
  let ?i = "example_interaction\<lparr>InitState := (InitState example_interaction)\<lparr>ProbeE := Fin 0.2\<rparr>\<rparr>"
  have E: "ProbeE (InitState ?i) = Fin 0.2"
    by simp
  have h: "max_f (Integral_y_range example_constants (Fin 0.2))
      \<le> min_f (Integral_y_range example_constants (Fin 0.2))"
    by (simp add: Integral_y_range_def example_constants_def one_dbl_def minus_dbl_def)
  have k: "(0::real) < 0.2 \<and> kASmallNum example_constants < 1 / 2"
    by (simp add: example_constants_def)
  from Integral_empty_y_range [of example_constants ?i example_externals example_model "0.2"]
    h k
  show ?thesis
    unfolding E by blast
qed

lemma foldl_add_sum_list:
  fixes g :: "'a \<Rightarrow> dbl"
  shows "foldl (\<lambda>a p. a + g p) z xs = z + sum_list (map g xs)"
  by (induction xs arbitrary: z) (simp_all add: add.assoc)

lemma sum_list_rows:
  fixes xss :: "dbl list list"
  shows "sum_list (concat xss) = sum_list (map sum_list xss)"
  by (induction xss) simp_all

lemma sum_list_grid_index:
  fixes f :: "int \<Rightarrow> dbl"
  shows "sum_list (map f [0..299]) = sum f {0..<300}"
proof -
  have "sum_list (map f [0..299]) = sum f (set [0..299])"
    by (rule sum_list_distinct_conv_sum_set) simp
  moreover have "set [0..299] = {0..<300::int}"
    by auto
  ultimately show ?thesis
    by simp
qed

lemma ranges_exact:
  "Integral_x_range_r Fin c = Integral_x_range c"
  "Integral_y_range_r Fin c E = Integral_y_range c E"
  "grid_step_r Fin r = grid_step r"
  "grid_coord_r Fin r i = grid_coord r i"
  by (simp_all add: Integral_x_range_r_def Integral_x_range_def Integral_y_range_r_def
      Integral_y_range_def grid_step_r_def grid_step_def grid_coord_r_def grid_coord_def)

lemma grid_point_exact: "grid_point_r Fin c interaction ix iy = grid_point c interaction ix iy"
  by (simp add: grid_point_r_def grid_point_def ranges_exact)

lemma grid_total_exact: "grid_total_r Fin c e this interaction = grid_sum c e this interaction"
proof -
  let ?g = "\<lambda>p. grid_step (Integral_x_range c)
      * grid_step (Integral_y_range c (ProbeE (InitState interaction)))
      * fst (XSec c e this p kPSxyfE)"
  have "grid_total_r Fin c e this interaction
      = foldl (\<lambda>a p. a + ?g p) 0
          (concat (map (\<lambda>ix. map (\<lambda>iy. grid_point c interaction ix iy) [0..299]) [0..299]))"
    by (simp add: grid_total_r_def accumulate_r_def [abs_def] XSec_exact ranges_exact
        grid_points_r_def grid_point_exact)
  also have "\<dots> = sum_list (map ?g
          (concat (map (\<lambda>ix. map (\<lambda>iy. grid_point c interaction ix iy) [0..299]) [0..299])))"
    by (simp add: foldl_add_sum_list)
  also have "\<dots> = sum_list (map (\<lambda>ix. sum_list (map (\<lambda>iy. ?g (grid_point c interaction ix iy))
          [0..299])) [0..299])"
    by (simp add: map_concat sum_list_rows comp_def)
  also have "\<dots> = grid_sum c e this interaction"
    by (simp add: sum_list_grid_index grid_sum_def)
  finally show ?thesis .
qed

lemma grid_coord_r_start:
  assumes "rnd 0 = Fin 0" and "rnd lo = Fin lo" and "min_f r = Fin lo"
    and "grid_step_r rnd r = Fin d"
  shows "grid_coord_r rnd r 0 = min_f r"
  by (simp add: grid_coord_r_def mul_r_def add_r_def rounded_def Dbl_of_int_def assms)

text \<open>
  Claim C2 as stated, with a grid that includes both ends of each range, fails in
  binary64 arithmetic. For a probe of 12 GeV the range of \<open>y\<close> is not empty, and the last
  coordinate \<open>y.min + 299 dy\<close> that \<open>Integral\<close> computes is the double just below \<open>y.max\<close>;
  no grid point of the integral has \<open>y.max\<close> as its \<open>y\<close>.
\<close>

theorem Integral_grid_misses_y_max:
  "\<not> max_f (Integral_y_range_r b64 binary64_constants (Fin 12))
       \<le> min_f (Integral_y_range_r b64 binary64_constants (Fin 12))
   \<and> max_f (Integral_y_range_r b64 binary64_constants (Fin 12))
       = Fin (8927883091339441 / 2 ^ 53)
   \<and> fy (Kine (ls_interaction (Integral_r b64 binary64_constants example_externals
         binary64_model (at_energy binary64_interaction (Fin 12)))))
       = Fin (8927883091339440 / 2 ^ 53)
   \<and> Fin (8927883091339441 / 2 ^ 53)
       \<notin> set (map (fy \<circ> Kine) (ls_calls (Integral_r b64 binary64_constants example_externals
            binary64_model (at_energy binary64_interaction (Fin 12)))))"
proof -
  let ?i = "at_energy binary64_interaction (Fin 12)"
  let ?r = "Integral_y_range_r b64 binary64_constants (Fin 12)"
  have ne12: "\<not> max_f ?r \<le> min_f ?r"
    unfolding y_range_at_12 by simp
  have ne: "\<not> max_f (Integral_y_range_r b64 binary64_constants (ProbeE (InitState ?i)))
           \<le> min_f (Integral_y_range_r b64 binary64_constants (ProbeE (InitState ?i)))"
    unfolding at_energy_simps by (rule ne12)
  have mx: "max_f ?r = Fin (8927883091339441 / 2 ^ 53)"
    by (simp only: y_range_at_12 Range1D_t.simps)
  have mn: "min_f ?r = Fin (6705304040912655 / 2 ^ 59)"
    by (simp only: y_range_at_12 Range1D_t.simps)
  have last: "fy (Kine (ls_interaction (Integral_r b64 binary64_constants example_externals
         binary64_model ?i))) = Fin (8927883091339440 / 2 ^ 53)"
    by (simp only: Integral_r_on_grid [OF ne] loop_state.simps grid_point_r_fy at_energy_simps
        y_coord_299_at_12)
  have d: "(0::real) \<le> 7554236973977412 / 2 ^ 61"
    by simp
  have "Fin (8927883091339441 / 2 ^ 53) \<noteq> fy (Kine p)"
    if p: "p \<in> set (grid_points_r b64 binary64_constants ?i)" for p
  proof
    assume eq: "Fin (8927883091339441 / 2 ^ 53) = fy (Kine p)"
    from grid_points_r_cases [OF p] obtain ix iy
      where iy: "0 \<le> iy" "iy \<le> 299" and pe: "p = grid_point_r b64 binary64_constants ?i ix iy"
      by blast
    have "fy (Kine p) = grid_coord_r b64 ?r iy"
      by (simp only: pe grid_point_r_fy at_energy_simps)
    also have "\<dots> \<le> grid_coord_r b64 ?r 299"
      using mn y_step_at_12 d iy by (rule grid_coord_r_mono)
    finally have "fy (Kine p) \<le> Fin (8927883091339440 / 2 ^ 53)"
      by (simp only: y_coord_299_at_12)
    then show False
      unfolding eq [symmetric] by simp
  qed
  then have miss: "Fin (8927883091339441 / 2 ^ 53)
       \<notin> set (map (fy \<circ> Kine) (ls_calls (Integral_r b64 binary64_constants example_externals
            binary64_model ?i)))"
    by (auto simp add: Integral_r_on_grid [OF ne])
  from ne12 mx last miss show ?thesis
    by blast
qed

text \<open>
  Claim C2, amended. When the range of \<open>y\<close> is not empty, \<open>Integral\<close> returns the total,
  accumulated in the order of the two loops, of \<open>dx dy\<close> times the value of \<open>XSec\<close> in the
  canonical parameterization over the grid of 300 by 300 points
  \<open>(x.min + ix dx, y.min + iy dy)\<close>, with \<open>dx = (x.max - x.min) / (300 - 1)\<close>,
  \<open>dy = (y.max - y.min) / (300 - 1)\<close> and \<open>x\<close> ranging over \<open>(\<epsilon>, 1 - \<epsilon>)\<close>; the calls of \<open>XSec\<close>
  are made on the interaction with its \<open>x\<close> and \<open>y\<close> overwritten by the grid point, row by
  row, and the interaction is left at the last grid point. This holds for every rounding
  of the arithmetic: for the exact one, where \<open>Integral_r\<close> is \<open>Integral\<close> and the total is
  the double sum, and for binary64. The grid starts at the lower end of a range (a
  double, with a finite step). For the binary64 constants the last coordinate of \<open>x\<close> is
  \<open>x.max\<close>; the last coordinate of \<open>y\<close> is \<open>y.min + 299 dy\<close> as computed, which need not be
  \<open>y.max\<close>.
\<close>

theorem Integral_is_grid_sum:
  assumes "\<not> max_f (Integral_y_range_r rnd c (ProbeE (InitState interaction)))
           \<le> min_f (Integral_y_range_r rnd c (ProbeE (InitState interaction)))"
  shows "ls_xsec (Integral_r rnd c e this interaction) = grid_total_r rnd c e this interaction
     \<and> ls_calls (Integral_r rnd c e this interaction) = grid_points_r rnd c interaction
     \<and> ls_interaction (Integral_r rnd c e this interaction)
         = grid_point_r rnd c interaction 299 299
     \<and> Integral_r Fin c e this interaction = Integral c e this interaction
     \<and> grid_total_r Fin c e this interaction = grid_sum c e this interaction
     \<and> (\<forall>r lo d. rnd 0 = Fin 0 \<and> rnd lo = Fin lo \<and> min_f r = Fin lo
           \<and> grid_step_r rnd r = Fin d
          \<longrightarrow> grid_coord_r rnd r 0 = min_f r)
     \<and> grid_coord_r b64 (Integral_x_range_r b64 binary64_constants) 299
         = max_f (Integral_x_range_r b64 binary64_constants)"
proof -
  have s: "\<forall>r lo d. rnd 0 = Fin 0 \<and> rnd lo = Fin lo \<and> min_f r = Fin lo
           \<and> grid_step_r rnd r = Fin d
          \<longrightarrow> grid_coord_r rnd r 0 = min_f r"
    using grid_coord_r_start [of rnd] by blast
  show ?thesis
    using s x_grid_ends_binary64
    by (simp add: Integral_r_on_grid [OF assms] Integral_exact grid_total_exact)
qed

theorem Integral_is_grid_sum_witness:
  "\<not> max_f (Integral_y_range_r b64 binary64_constants (Fin 7.5))
      \<le> min_f (Integral_y_range_r b64 binary64_constants (Fin 7.5))
   \<and> ls_xsec (Integral_r b64 binary64_constants example_externals binary64_model
        (at_energy binary64_interaction (Fin 7.5)))
       = grid_total_r b64 binary64_constants example_externals binary64_model
           (at_energy binary64_interaction (Fin 7.5))
   \<and> ls_calls (Integral_r b64 binary64_constants example_externals binary64_model
        (at_energy binary64_interaction (Fin 7.5)))
       = grid_points_r b64 binary64_constants (at_energy binary64_interaction (Fin 7.5))
   \<and> ls_interaction (Integral_r b64 binary64_constants example_externals binary64_model
        (at_energy binary64_interaction (Fin 7.5)))
       = grid_point_r b64 binary64_constants (at_energy binary64_interaction (Fin 7.5)) 299 299
   \<and> grid_coord_r b64 (Integral_y_range_r b64 binary64_constants (Fin 7.5)) 0
       = min_f (Integral_y_range_r b64 binary64_constants (Fin 7.5))"
proof -
  let ?i = "at_energy binary64_interaction (Fin 7.5)"
  let ?r = "Integral_y_range_r b64 binary64_constants (Fin 7.5)"
  have ne75: "\<not> max_f ?r \<le> min_f ?r"
    unfolding y_range_at_7_5 by simp
  have ne: "\<not> max_f (Integral_y_range_r b64 binary64_constants (ProbeE (InitState ?i)))
           \<le> min_f (Integral_y_range_r b64 binary64_constants (ProbeE (InitState ?i)))"
    unfolding at_energy_simps by (rule ne75)
  have lo: "b64 (5364070294504434 / 2 ^ 58) = Fin (5364070294504434 / 2 ^ 58)"
    using b64_eval_neg [of 6 "5364070294504434 / 2 ^ 58" 5364070294504434] by simp
  have mn: "min_f ?r = Fin (5364070294504434 / 2 ^ 58)"
    by (simp only: y_range_at_7_5 Range1D_t.simps)
  note t = Integral_is_grid_sum [OF ne, of example_externals binary64_model]
  have "grid_coord_r b64 ?r 0 = min_f ?r"
    using t b64_0 lo mn y_step_at_7_5 by blast
  with t ne75 show ?thesis
    by blast
qed

section \<open>The differential cross section on finite arguments\<close>


lemma DFR_tmin_Fin:
  "ep \<noteq> 0 \<Longrightarrow> DFR_tmin c (Fin ep) = Fin ((kPionMass2 c / (2 * ep))\<^sup>2)"
  by (simp add: DFR_tmin_def TMath_Power2_def power2_eq_square)

lemma DFR_t_integral_Fin:
  assumes "\<beta> \<noteq> 0" and "ep \<noteq> 0"
  shows "DFR_t_integral c (Fin \<beta>) (Fin ep) =
     Fin (if (kPionMass2 c / (2 * ep))\<^sup>2 < 99
          then (exp (- \<beta> * (kPionMass2 c / (2 * ep))\<^sup>2) - exp (- \<beta> * 99)) / \<beta>
          else 0)"
  using assms
  by (simp add: DFR_t_integral_def DFR_tmin_Fin Let_def minus_dbl_def zero_dbl_def)

lemma t_closed_form_pos:
  fixes \<beta> t :: real
  assumes "0 < \<beta>" and "t < 99"
  shows "0 < (exp (- \<beta> * t) - exp (- \<beta> * 99)) / \<beta>"
proof -
  have "- \<beta> * 99 < - \<beta> * t"
    using assms by simp
  then have "exp (- \<beta> * 99) < exp (- \<beta> * t)"
    by (simp only: exp_less_cancel_iff)
  with assms(1) show ?thesis by simp
qed











section \<open>The grid points of the integral\<close>

lemma grid_between:
  fixes lo hi :: real
  assumes "lo \<le> hi" and "0 \<le> k" and "k \<le> 299"
  shows "lo \<le> lo + of_int k * ((hi - lo) / 299)"
    and "lo + of_int k * ((hi - lo) / 299) \<le> hi"
proof -
  define t :: real where "t = of_int k / 299"
  have t: "0 \<le> t" "t \<le> 1"
    using assms by (simp_all add: t_def)
  have e: "of_int k * ((hi - lo) / 299) = t * (hi - lo)"
    by (simp add: t_def)
  have "0 \<le> t * (hi - lo)"
    using t assms by simp
  then show "lo \<le> lo + of_int k * ((hi - lo) / 299)"
    unfolding e by simp
  have "t * (hi - lo) \<le> 1 * (hi - lo)"
    using t assms by (intro mult_right_mono) simp_all
  then show "lo + of_int k * ((hi - lo) / 299) \<le> hi"
    unfolding e by simp
qed

lemma grid_coord_Fin:
  assumes "min_f r = Fin lo" and "max_f r = Fin hi"
  shows "grid_coord r k = Fin (lo + of_int k * ((hi - lo) / 299))"
  by (simp add: grid_coord_def grid_step_def assms Dbl_of_int_def minus_dbl_def)

lemma above_threshold:
  assumes eps: "kASmallNum c < 1 / 2"
    and mass: "0 \<le> kPionMass c" "0 \<le> kMuonMass c"
    and E: "threshold c < E"
  shows "0 < E"
    and "kPionMass c / E + kASmallNum c < 1 - kMuonMass c / E - kASmallNum c"
    and "\<not> max_f (Integral_y_range c (Fin E)) \<le> min_f (Integral_y_range c (Fin E))"
proof -
  have "0 \<le> threshold c"
    using eps mass by (simp add: threshold_def)
  with E show Epos: "0 < E" by simp
  have "\<not> 1 - kMuonMass c / E - kASmallNum c \<le> kPionMass c / E + kASmallNum c"
    using E y_range_real_iff [OF Epos eps] by (simp add: threshold_def)
  then show lt: "kPionMass c / E + kASmallNum c < 1 - kMuonMass c / E - kASmallNum c"
    by simp
  show "\<not> max_f (Integral_y_range c (Fin E)) \<le> min_f (Integral_y_range c (Fin E))"
    using Epos lt by (simp add: y_range_Fin)
qed

lemma Integral_calls_Fin:
  assumes eps: "0 < kASmallNum c" "kASmallNum c < 1 / 2"
    and mass: "0 \<le> kPionMass c" "0 \<le> kMuonMass c"
    and E: "ProbeE (InitState interaction) = Fin E" "threshold c < E"
    and p: "p \<in> set (ls_calls (Integral c e this interaction))"
  shows "\<exists>x y. fx (Kine p) = Fin x \<and> fy (Kine p) = Fin y \<and> ProbeE (InitState p) = Fin E
     \<and> kASmallNum c \<le> x \<and> x \<le> 1 - kASmallNum c
     \<and> kPionMass c / E + kASmallNum c \<le> y \<and> y \<le> 1 - kMuonMass c / E - kASmallNum c"
proof -
  note a = above_threshold [OF eps(2) mass E(2)]
  have ne: "\<not> max_f (Integral_y_range c (ProbeE (InitState interaction)))
           \<le> min_f (Integral_y_range c (ProbeE (InitState interaction)))"
    using a(3) by (simp add: E(1))
  have "p \<in> set (concat (map (\<lambda>ix. map (\<lambda>iy. grid_point c interaction ix iy) [0..299])
        [0..299]))"
    using p by (simp add: Integral_on_grid [OF ne])
  then obtain ix iy where ix: "0 \<le> ix" "ix \<le> 299" and iy: "0 \<le> iy" "iy \<le> 299"
    and pe: "p = grid_point c interaction ix iy"
    using concat_grid_mem [of p "grid_point c interaction" 299 299] by blast
  have Ene: "E \<noteq> 0"
    using a(1) by simp
  let ?x = "kASmallNum c + of_int ix * ((1 - kASmallNum c - kASmallNum c) / 299)"
  let ?y = "kPionMass c / E + kASmallNum c + of_int iy *
     ((1 - kMuonMass c / E - kASmallNum c - (kPionMass c / E + kASmallNum c)) / 299)"
  have px: "fx (Kine p) = Fin ?x"
    by (simp add: pe grid_point_def at_xy_def Setx_def Sety_def
        grid_coord_Fin [OF x_range_Fin])
  have py: "fy (Kine p) = Fin ?y"
    by (simp add: pe grid_point_def at_xy_def Setx_def Sety_def E(1)
        grid_coord_Fin [OF y_range_Fin [OF Ene]])
  have pE: "ProbeE (InitState p) = Fin E"
    by (simp add: pe grid_point_def at_xy_def Setx_def Sety_def E(1))
  have xr: "kASmallNum c \<le> 1 - kASmallNum c"
    using eps by simp
  have yr: "kPionMass c / E + kASmallNum c \<le> 1 - kMuonMass c / E - kASmallNum c"
    using a(2) by simp
  show ?thesis
    using px py pE grid_between [OF xr ix] grid_between [OF yr iy]
    by blast
qed

text \<open>
  Claim C8 as stated, with every \<open>y\<close> at most \<open>1 - m\<^sub>\<mu> / E - \<epsilon>\<close>, fails in binary64
  arithmetic. For a probe of 7.5 GeV, above the threshold, \<open>Integral\<close> calls \<open>XSec\<close> on
  the last grid point with the \<open>y\<close> that it computes as \<open>y.min + 299 dy\<close>: the double just
  above \<open>y.max\<close>, which is also above the real number \<open>1 - m\<^sub>\<mu> / E - \<epsilon>\<close>.
\<close>

theorem Integral_last_y_above_y_max:
  "threshold binary64_constants < 7.5
   \<and> max_f (Integral_y_range_r b64 binary64_constants (Fin 7.5))
       = Fin (8880298797618063 / 2 ^ 53)
   \<and> grid_point_r b64 binary64_constants (at_energy binary64_interaction (Fin 7.5)) 299 299
       \<in> set (ls_calls (Integral_r b64 binary64_constants example_externals binary64_model
             (at_energy binary64_interaction (Fin 7.5))))
   \<and> fy (Kine (grid_point_r b64 binary64_constants
         (at_energy binary64_interaction (Fin 7.5)) 299 299))
       = Fin (8880298797618064 / 2 ^ 53)
   \<and> \<not> Fin (8880298797618064 / 2 ^ 53)
         \<le> max_f (Integral_y_range_r b64 binary64_constants (Fin 7.5))
   \<and> 1 - kMuonMass binary64_constants / 7.5 - kASmallNum binary64_constants
       < 8880298797618064 / 2 ^ 53"
proof -
  let ?i = "at_energy binary64_interaction (Fin 7.5)"
  have thr: "threshold binary64_constants < 7.5"
    by (simp add: threshold_def binary64_constants_def)
  have mx: "max_f (Integral_y_range_r b64 binary64_constants (Fin 7.5))
       = Fin (8880298797618063 / 2 ^ 53)"
    by (simp only: y_range_at_7_5 Range1D_t.simps)
  have ne: "\<not> max_f (Integral_y_range_r b64 binary64_constants (ProbeE (InitState ?i)))
           \<le> min_f (Integral_y_range_r b64 binary64_constants (ProbeE (InitState ?i)))"
    unfolding at_energy_simps y_range_at_7_5 by simp
  have "grid_point_r b64 binary64_constants ?i 299 299
       \<in> set (grid_points_r b64 binary64_constants ?i)"
    by (rule grid_points_r_mem) simp_all
  then have mem: "grid_point_r b64 binary64_constants ?i 299 299
       \<in> set (ls_calls (Integral_r b64 binary64_constants example_externals binary64_model ?i))"
    by (simp only: Integral_r_on_grid [OF ne] loop_state.simps)
  have y: "fy (Kine (grid_point_r b64 binary64_constants ?i 299 299))
       = Fin (8880298797618064 / 2 ^ 53)"
    by (simp only: grid_point_r_fy at_energy_simps y_coord_299_at_7_5)
  have above: "\<not> Fin (8880298797618064 / 2 ^ 53)
         \<le> max_f (Integral_y_range_r b64 binary64_constants (Fin 7.5))"
    unfolding mx by simp
  have r: "1 - kMuonMass binary64_constants / 7.5 - kASmallNum binary64_constants
       < 8880298797618064 / 2 ^ 53"
    by (simp add: binary64_constants_def)
  from thr mx mem y above r show ?thesis
    by blast
qed

text \<open>
  Claim C8, amended. For an incident energy \<open>E\<close> above the threshold, \<open>Integral\<close> calls
  \<open>XSec\<close> at 300 times 300 grid points, and each pair \<open>(x, y)\<close> that it has written into
  the interaction before a call satisfies \<open>x.min \<le> x \<le> x.max\<close> and \<open>y.min \<le> y\<close>, the ends
  being those of the ranges \<open>(\<epsilon>, 1 - \<epsilon>)\<close> and \<open>(m\<^sub>\<pi> / E + \<epsilon>, 1 - m\<^sub>\<mu> / E - \<epsilon>)\<close> as the
  function computes them, and \<open>0 < x < 1\<close>, \<open>0 < y < 1\<close>; the momentum transfer
  \<open>Q2 = 2 x y M E\<close> is not negative and the pion energy \<open>y E\<close> is positive. The upper end
  \<open>y.max\<close> is not claimed as a bound of \<open>y\<close>. Here \<open>0 < \<epsilon> < 1/2\<close> and the masses are not
  negative.
\<close>

theorem Integral_grid_in_bounds:
  assumes eps: "0 < kASmallNum c" "kASmallNum c < 1 / 2"
    and mass: "0 \<le> kPionMass c" "0 \<le> kMuonMass c" "0 \<le> kNucleonMass c"
    and E: "ProbeE (InitState interaction) = Fin E" "threshold c < E"
  shows "length (ls_calls (Integral c e this interaction)) = 300 * 300
     \<and> (\<forall>p \<in> set (ls_calls (Integral c e this interaction)).
          \<exists>x y. fx (Kine p) = Fin x \<and> fy (Kine p) = Fin y \<and> ProbeE (InitState p) = Fin E
            \<and> min_f (Integral_x_range c) \<le> fx (Kine p)
            \<and> fx (Kine p) \<le> max_f (Integral_x_range c)
            \<and> min_f (Integral_y_range c (Fin E)) \<le> fy (Kine p)
            \<and> 0 < x \<and> x < 1 \<and> 0 < y \<and> y < 1
            \<and> 0 \<le> 2 * x * y * kNucleonMass c * E \<and> 0 < y * E)"
proof (intro conjI ballI)
  note a = above_threshold [OF eps(2) mass(1,2) E(2)]
  have ne: "\<not> max_f (Integral_y_range c (ProbeE (InitState interaction)))
           \<le> min_f (Integral_y_range c (ProbeE (InitState interaction)))"
    using a(3) by (simp add: E(1))
  show "length (ls_calls (Integral c e this interaction)) = 300 * 300"
    by (simp add: Integral_on_grid [OF ne] length_concat comp_def sum_list_triv)
  fix p
  assume p: "p \<in> set (ls_calls (Integral c e this interaction))"
  from Integral_calls_Fin [OF eps mass(1,2) E p] obtain x y
    where f: "fx (Kine p) = Fin x" "fy (Kine p) = Fin y" "ProbeE (InitState p) = Fin E"
      and b: "kASmallNum c \<le> x" "x \<le> 1 - kASmallNum c"
        "kPionMass c / E + kASmallNum c \<le> y" "y \<le> 1 - kMuonMass c / E - kASmallNum c"
    by blast
  have Ene: "E \<noteq> 0"
    using a(1) by simp
  have r: "min_f (Integral_x_range c) \<le> fx (Kine p)"
    "fx (Kine p) \<le> max_f (Integral_x_range c)"
    "min_f (Integral_y_range c (Fin E)) \<le> fy (Kine p)"
    using b by (simp_all add: f x_range_Fin y_range_Fin [OF Ene])
  have m1: "0 \<le> kPionMass c / E" and m2: "0 \<le> kMuonMass c / E"
    using mass a(1) by simp_all
  have x: "0 < x" "x < 1"
    using b eps by simp_all
  have y: "0 < y" "y < 1"
    using b eps m1 m2 by linarith+
  have q: "0 \<le> 2 * x * y * kNucleonMass c * E"
    using x y mass a(1) by simp
  have ep: "0 < y * E"
    using y a(1) by simp
  show "\<exists>x y. fx (Kine p) = Fin x \<and> fy (Kine p) = Fin y \<and> ProbeE (InitState p) = Fin E
            \<and> min_f (Integral_x_range c) \<le> fx (Kine p)
            \<and> fx (Kine p) \<le> max_f (Integral_x_range c)
            \<and> min_f (Integral_y_range c (Fin E)) \<le> fy (Kine p)
            \<and> 0 < x \<and> x < 1 \<and> 0 < y \<and> y < 1
            \<and> 0 \<le> 2 * x * y * kNucleonMass c * E \<and> 0 < y * E"
    using f r x y q ep by blast
qed

lemma binary64_above_threshold:
  "0 < kASmallNum binary64_constants" "kASmallNum binary64_constants < 1 / 2"
  "0 \<le> kPionMass binary64_constants" "0 \<le> kMuonMass binary64_constants"
  "0 \<le> kNucleonMass binary64_constants"
  "ProbeE (InitState binary64_interaction) = Fin 5" "threshold binary64_constants < 5"
  by (simp_all add: binary64_constants_def binary64_interaction_def threshold_def)

theorem Integral_grid_in_bounds_witness:
  "threshold binary64_constants < 5
   \<and> length (ls_calls
        (Integral binary64_constants example_externals binary64_model binary64_interaction))
       = 300 * 300
   \<and> list_all (\<lambda>p. \<exists>x y. fx (Kine p) = Fin x \<and> fy (Kine p) = Fin y
          \<and> min_f (Integral_y_range binary64_constants (Fin 5)) \<le> fy (Kine p)
          \<and> 0 < x \<and> x < 1 \<and> 0 < y \<and> y < 1 \<and> 0 < y * 5)
       (ls_calls
         (Integral binary64_constants example_externals binary64_model binary64_interaction))"
proof -
  note b = Integral_grid_in_bounds [OF binary64_above_threshold,
      of example_externals binary64_model]
  have "list_all (\<lambda>p. \<exists>x y. fx (Kine p) = Fin x \<and> fy (Kine p) = Fin y
          \<and> min_f (Integral_y_range binary64_constants (Fin 5)) \<le> fy (Kine p)
          \<and> 0 < x \<and> x < 1 \<and> 0 < y \<and> y < 1 \<and> 0 < y * 5)
       (ls_calls
         (Integral binary64_constants example_externals binary64_model binary64_interaction))"
    unfolding list_all_iff
  proof
    fix p
    assume "p \<in> set (ls_calls
         (Integral binary64_constants example_externals binary64_model binary64_interaction))"
    with b show "\<exists>x y. fx (Kine p) = Fin x \<and> fy (Kine p) = Fin y
          \<and> min_f (Integral_y_range binary64_constants (Fin 5)) \<le> fy (Kine p)
          \<and> 0 < x \<and> x < 1 \<and> 0 < y \<and> y < 1 \<and> 0 < y * 5"
      by blast
  qed
  with b binary64_above_threshold(7) show ?thesis
    by blast
qed

section \<open>The guard on the range of the momentum transfer\<close>

lemma tmin_below_cutoff:
  fixes a ep :: real
  assumes "0 \<le> a" and "a / (2 * sqrt 99) < ep"
  shows "0 < ep" and "(a / (2 * ep))\<^sup>2 < 99"
proof -
  have s: "0 < 2 * sqrt 99"
    by simp
  have "0 \<le> a / (2 * sqrt 99)"
    using assms(1) by simp
  with assms(2) show ep: "0 < ep"
    by linarith
  have "a < ep * (2 * sqrt 99)"
    using assms(2) s by (simp only: pos_divide_less_eq)
  then have "a < sqrt 99 * (2 * ep)"
    by (simp add: mult.commute mult.left_commute)
  moreover have "0 < 2 * ep"
    using ep by simp
  ultimately have "a / (2 * ep) < sqrt 99"
    by (simp only: pos_divide_less_eq)
  moreover have "0 \<le> a / (2 * ep)"
    using ep assms(1) by simp
  ultimately have "(a / (2 * ep))\<^sup>2 < (sqrt 99)\<^sup>2"
    by (intro power_strict_mono) simp_all
  then show "(a / (2 * ep))\<^sup>2 < 99"
    by simp
qed

lemma DFR_t_integral_open:
  assumes "DFR_tmin c Epi < Fin 99"
  shows "DFR_t_integral c b Epi
     = (TMath_Exp (- b * DFR_tmin c Epi) - TMath_Exp (- b * Fin 99)) / b"
  using assms by (simp add: DFR_t_integral_def Let_def)

lemma DFR_t_integral_pos:
  assumes "0 < \<beta>" and "ep \<noteq> 0" and "(kPionMass2 c / (2 * ep))\<^sup>2 < 99"
  shows "0 < DFR_t_integral c (Fin \<beta>) (Fin ep)"
proof -
  have b: "\<beta> \<noteq> 0"
    using assms(1) by simp
  show ?thesis
    using t_closed_form_pos [OF assms(1,3)] assms(3)
    by (simp add: DFR_t_integral_Fin [OF b assms(2)] zero_dbl_def)
qed

text \<open>
  The bound \<open>m\<^sub>\<pi>\<^sup>2 / (2 \<surd>99)\<close> is an irrational number when \<open>m\<^sub>\<pi>\<^sup>2\<close> is rational and not
  zero. A finite double is a rational number, so that a pion energy which is at least
  the bound is strictly greater than the bound.
\<close>

lemma no_nat_square_99: "(m::nat)\<^sup>2 \<noteq> 99"
proof (cases "m \<le> 9")
  case True
  then have "m\<^sup>2 \<le> 9\<^sup>2"
    by (rule power_mono) simp
  then show ?thesis by simp
next
  case False
  then have "10 \<le> m" by simp
  then have "(10::nat)\<^sup>2 \<le> m\<^sup>2"
    by (rule power_mono) simp
  then show ?thesis by simp
qed

lemma sqrt_99_irrational: "sqrt 99 \<notin> \<rat>"
proof
  assume "sqrt 99 \<in> \<rat>"
  then obtain m n :: nat where n: "n \<noteq> 0" and e: "\<bar>sqrt 99\<bar> = real m / real n"
    and cop: "coprime m n"
    by (rule Rats_abs_nat_div_natE)
  have "(sqrt 99)\<^sup>2 = (real m / real n)\<^sup>2"
    using e by (metis power2_abs)
  then have "99 * (real n)\<^sup>2 = (real m)\<^sup>2"
    using n by (simp add: power_divide field_simps)
  then have "real (99 * n\<^sup>2) = real (m\<^sup>2)"
    by simp
  then have eq: "99 * n\<^sup>2 = m\<^sup>2"
    by (simp only: of_nat_eq_iff)
  then have "n\<^sup>2 dvd m\<^sup>2"
    by (metis dvd_triv_right)
  moreover have "coprime (m\<^sup>2) (n\<^sup>2)"
    using cop by simp
  ultimately have "is_unit (n\<^sup>2)"
    by (metis coprime_common_divisor dvd_refl)
  then have "n = 1"
    by simp
  with eq have "m\<^sup>2 = 99"
    by simp
  then show False
    using no_nat_square_99 by blast
qed

lemma rational_above_bound:
  assumes "Epi \<in> \<rat>" and "a \<in> \<rat>" and "a \<noteq> 0"
    and "a / (2 * sqrt 99) \<le> Epi"
  shows "a / (2 * sqrt 99) < Epi"
proof -
  have "Epi \<noteq> a / (2 * sqrt 99)"
  proof
    assume e: "Epi = a / (2 * sqrt 99)"
    have ne: "Epi \<noteq> 0"
      using assms(3) by (simp add: e)
    have "Epi * (2 * sqrt 99) = a"
      by (simp add: e)
    then have "sqrt 99 = a / (2 * Epi)"
      using ne by (simp add: field_simps)
    moreover have "a / (2 * Epi) \<in> \<rat>"
      using assms(1,2) by (intro Rats_divide Rats_mult) simp_all
    ultimately show False
      using sqrt_99_irrational by simp
  qed
  with assms(4) show ?thesis
    by simp
qed

text \<open>
  Claim C10 as stated, with an integral over \<open>t\<close> that is strictly positive for \<open>\<beta> > 0\<close>,
  fails in binary64 arithmetic. For the pion energy 0.001 GeV (the nearest double),
  which is above the bound \<open>m\<^sub>\<pi>\<^sup>2 / (2 \<surd>99)\<close>, and the slope \<open>\<beta>\<close> = 8, the guard is not
  triggered (\<open>tmin\<close> is about 94.87), but both exponentials of the closed form are below
  half of the least positive double and round to zero: the integral over \<open>t\<close> is exactly
  0.
\<close>

theorem t_integral_underflow:
  "kPionMass2 binary64_constants / (2 * sqrt 99) \<le> 4611686018427388 / 2 ^ 62
   \<and> DFR_tmin_r b64 binary64_constants (Fin (4611686018427388 / 2 ^ 62))
       = Fin (6675600885559354 / 2 ^ 46)
   \<and> DFR_tmin_r b64 binary64_constants (Fin (4611686018427388 / 2 ^ 62)) < Fin 99
   \<and> (0::real) < 8
   \<and> DFR_t_integral_r b64 binary64_constants (Fin 8) (Fin (4611686018427388 / 2 ^ 62)) = 0
   \<and> \<not> 0 < DFR_t_integral_r b64 binary64_constants (Fin 8) (Fin (4611686018427388 / 2 ^ 62))"
proof -
  have "(9.9::real)\<^sup>2 \<le> 99"
    by (simp add: power2_eq_square)
  then have s9: "9.9 \<le> sqrt 99"
    by (rule real_le_rsqrt)
  have "kPionMass2 binary64_constants / (2 * sqrt 99)
      \<le> kPionMass2 binary64_constants / (2 * 9.9)"
    using s9 by (intro divide_left_mono) (simp_all add: binary64_constants_def)
  moreover have "kPionMass2 binary64_constants / (2 * 9.9) \<le> 4611686018427388 / 2 ^ 62"
    by (simp add: binary64_constants_def)
  ultimately have b: "kPionMass2 binary64_constants / (2 * sqrt 99) \<le> 4611686018427388 / 2 ^ 62"
    by linarith
  have lt: "DFR_tmin_r b64 binary64_constants (Fin (4611686018427388 / 2 ^ 62)) < Fin 99"
    unfolding tmin_at_0_001 by simp
  have z: "DFR_t_integral_r b64 binary64_constants (Fin 8) (Fin (4611686018427388 / 2 ^ 62)) = 0"
    by (simp only: t_integral_at_0_001 zero_dbl_def)
  have n: "\<not> 0 < DFR_t_integral_r b64 binary64_constants (Fin 8)
      (Fin (4611686018427388 / 2 ^ 62))"
    unfolding z by (rule dbl_less_irrefl)
  have p: "(0::real) < 8"
    by simp
  from b tmin_at_0_001 lt p z n show ?thesis
    by blast
qed

text \<open>
  Claim C10, amended. In a canonical evaluation whose pion energy \<open>E\<^sub>\<pi> = y E\<close> is at least
  \<open>m\<^sub>\<pi>\<^sup>2 / (2 \<surd>99)\<close>, the guard on the vanished range of \<open>t\<close> is not triggered:
  \<open>tmin = (m\<^sub>\<pi>\<^sup>2 / (2 E\<^sub>\<pi>))\<^sup>2 < tmax = 99\<close>, the integral over \<open>t\<close> is the closed form
  \<open>(exp (- \<beta> tmin) - exp (- \<beta> 99)) / \<beta>\<close>, and for \<open>\<beta> > 0\<close> it is not negative. This holds
  at every grid point of \<open>Integral\<close> for an energy above the threshold, since there
  \<open>y > m\<^sub>\<pi> / E\<close> and so \<open>E\<^sub>\<pi> > m\<^sub>\<pi>\<close>. Here \<open>m\<^sub>\<pi>\<^sup>2\<close> is the constant \<open>kPionMass2\<close> that
  the code reads, positive and at most \<open>2 \<surd>99 m\<^sub>\<pi>\<close>; it and the pion energy are
  rational numbers, as finite doubles are.
\<close>

theorem t_range_guard_not_triggered:
  "(0 < kPionMass2 c \<and> kPionMass2 c \<in> \<rat> \<and> Epi \<in> \<rat>
       \<and> kPionMass2 c / (2 * sqrt 99) \<le> Epi
     \<longrightarrow> DFR_tmin c (Fin Epi) = TMath_Power2 (Fin (kPionMass2 c) / (Fin 2 * Fin Epi))
       \<and> DFR_tmin c (Fin Epi) < Fin 99
       \<and> DFR_t_integral c b (Fin Epi)
           = (TMath_Exp (- b * DFR_tmin c (Fin Epi)) - TMath_Exp (- b * Fin 99)) / b
       \<and> (\<forall>\<beta>. b = Fin \<beta> \<and> 0 < \<beta> \<longrightarrow> 0 \<le> DFR_t_integral c b (Fin Epi)))
   \<and> (0 < kASmallNum c \<and> kASmallNum c < 1 / 2
       \<and> 0 < kPionMass c \<and> 0 \<le> kMuonMass c
       \<and> 0 < kPionMass2 c \<and> kPionMass2 c \<le> kPionMass c * (2 * sqrt 99)
       \<and> ProbeE (InitState interaction) = Fin E \<and> threshold c < E
     \<longrightarrow> (\<forall>p \<in> set (ls_calls (Integral c e this interaction)).
           \<exists>y. fy (Kine p) = Fin y \<and> ProbeE (InitState p) = Fin E
             \<and> kPionMass c < y * E \<and> kPionMass2 c / (2 * sqrt 99) < y * E
             \<and> DFR_tmin c (fy (Kine p) * ProbeE (InitState p)) < Fin 99))"
proof (intro conjI impI)
  assume h: "0 < kPionMass2 c \<and> kPionMass2 c \<in> \<rat> \<and> Epi \<in> \<rat>
       \<and> kPionMass2 c / (2 * sqrt 99) \<le> Epi"
  then have m2: "0 \<le> kPionMass2 c" "kPionMass2 c \<noteq> 0"
    and rat: "kPionMass2 c \<in> \<rat>" "Epi \<in> \<rat>"
    and le: "kPionMass2 c / (2 * sqrt 99) \<le> Epi"
    by simp_all
  have ep: "kPionMass2 c / (2 * sqrt 99) < Epi"
    using rat(2,1) m2(2) le by (rule rational_above_bound)
  note t = tmin_below_cutoff [OF m2(1) ep]
  have ne: "Epi \<noteq> 0"
    using t(1) by simp
  show "DFR_tmin c (Fin Epi) = TMath_Power2 (Fin (kPionMass2 c) / (Fin 2 * Fin Epi))"
    by (simp only: DFR_tmin_def tmin_forms)
  show lt: "DFR_tmin c (Fin Epi) < Fin 99"
    using t(2) by (simp add: DFR_tmin_Fin [OF ne])
  show "DFR_t_integral c b (Fin Epi)
           = (TMath_Exp (- b * DFR_tmin c (Fin Epi)) - TMath_Exp (- b * Fin 99)) / b"
    using lt by (rule DFR_t_integral_open)
  show "\<forall>\<beta>. b = Fin \<beta> \<and> 0 < \<beta> \<longrightarrow> 0 \<le> DFR_t_integral c b (Fin Epi)"
  proof (intro allI impI)
    fix \<beta>
    assume b: "b = Fin \<beta> \<and> 0 < \<beta>"
    then have "0 < DFR_t_integral c (Fin \<beta>) (Fin Epi)"
      using t(2) ne by (simp add: DFR_t_integral_pos)
    then show "0 \<le> DFR_t_integral c b (Fin Epi)"
      using b by (cases "DFR_t_integral c (Fin \<beta>) (Fin Epi)") (simp_all add: zero_dbl_def)
  qed
next
  assume h: "0 < kASmallNum c \<and> kASmallNum c < 1 / 2
       \<and> 0 < kPionMass c \<and> 0 \<le> kMuonMass c
       \<and> 0 < kPionMass2 c \<and> kPionMass2 c \<le> kPionMass c * (2 * sqrt 99)
       \<and> ProbeE (InitState interaction) = Fin E \<and> threshold c < E"
  then have eps: "0 < kASmallNum c" "kASmallNum c < 1 / 2"
    and mass: "0 \<le> kPionMass c" "0 \<le> kMuonMass c"
    and m2: "0 \<le> kPionMass2 c" "kPionMass2 c \<le> kPionMass c * (2 * sqrt 99)"
    and E: "ProbeE (InitState interaction) = Fin E" "threshold c < E"
    by simp_all
  note a = above_threshold [OF eps(2) mass E(2)]
  show "\<forall>p \<in> set (ls_calls (Integral c e this interaction)).
           \<exists>y. fy (Kine p) = Fin y \<and> ProbeE (InitState p) = Fin E
             \<and> kPionMass c < y * E \<and> kPionMass2 c / (2 * sqrt 99) < y * E
             \<and> DFR_tmin c (fy (Kine p) * ProbeE (InitState p)) < Fin 99"
  proof
    fix p
    assume p: "p \<in> set (ls_calls (Integral c e this interaction))"
    from Integral_calls_Fin [OF eps mass E p] obtain x y
      where f: "fy (Kine p) = Fin y" "ProbeE (InitState p) = Fin E"
        and b: "kPionMass c / E + kASmallNum c \<le> y"
      by blast
    have "kPionMass c / E < y"
      using b eps(1) by linarith
    then have big: "kPionMass c < y * E"
      using a(1) by (simp only: pos_divide_less_eq)
    have "kPionMass2 c / (2 * sqrt 99) \<le> kPionMass c"
      using m2(2) by (simp add: pos_divide_le_eq)
    with big have ep: "kPionMass2 c / (2 * sqrt 99) < y * E"
      by linarith
    note t = tmin_below_cutoff [OF m2(1) ep]
    have ne: "y * E \<noteq> 0"
      using t(1) by (rule less_imp_neq [symmetric])
    have "DFR_tmin c (Fin (y * E)) < Fin 99"
      using t(2) by (simp add: DFR_tmin_Fin [OF ne])
    then have "DFR_tmin c (fy (Kine p) * ProbeE (InitState p)) < Fin 99"
      by (simp add: f)
    with f big ep show "\<exists>y. fy (Kine p) = Fin y \<and> ProbeE (InitState p) = Fin E
             \<and> kPionMass c < y * E \<and> kPionMass2 c / (2 * sqrt 99) < y * E
             \<and> DFR_tmin c (fy (Kine p) * ProbeE (InitState p)) < Fin 99"
      by blast
  qed
qed

theorem t_range_guard_not_triggered_witness:
  "kPionMass2 binary64_constants / (2 * sqrt 99) \<le> 4611686018427388 / 2 ^ 62
   \<and> DFR_tmin binary64_constants (Fin (4611686018427388 / 2 ^ 62)) < Fin 99
   \<and> 0 \<le> DFR_t_integral binary64_constants (Fin 8) (Fin (4611686018427388 / 2 ^ 62))
   \<and> list_all (\<lambda>p. DFR_tmin binary64_constants (fy (Kine p) * ProbeE (InitState p)) < Fin 99)
       (ls_calls
         (Integral binary64_constants example_externals binary64_model binary64_interaction))"
proof -
  have s1: "1 \<le> sqrt 99"
    by simp
  have "(9.9::real)\<^sup>2 \<le> 99"
    by (simp add: power2_eq_square)
  then have s9: "9.9 \<le> sqrt 99"
    by (rule real_le_rsqrt)
  have "kPionMass2 binary64_constants / (2 * sqrt 99)
      \<le> kPionMass2 binary64_constants / (2 * 9.9)"
    using s9 by (intro divide_left_mono) (simp_all add: binary64_constants_def)
  moreover have "kPionMass2 binary64_constants / (2 * 9.9) \<le> 4611686018427388 / 2 ^ 62"
    by (simp add: binary64_constants_def)
  ultimately have small: "kPionMass2 binary64_constants / (2 * sqrt 99) \<le> 4611686018427388 / 2 ^ 62"
    by linarith
  have pos: "0 < kPionMass2 binary64_constants"
    by (simp add: binary64_constants_def)
  have rat: "kPionMass2 binary64_constants \<in> \<rat>" "(4611686018427388 / 2 ^ 62 :: real) \<in> \<rat>"
    by (simp_all add: binary64_constants_def)
  have "kPionMass2 binary64_constants \<le> kPionMass binary64_constants * (2 * 1)"
    by (simp add: binary64_constants_def)
  moreover have "kPionMass binary64_constants * (2 * 1)
      \<le> kPionMass binary64_constants * (2 * sqrt 99)"
    using s1 by (intro mult_left_mono) (simp_all add: binary64_constants_def)
  ultimately have m2: "kPionMass2 binary64_constants
      \<le> kPionMass binary64_constants * (2 * sqrt 99)"
    by linarith
  have mpi: "0 < kPionMass binary64_constants"
    by (simp add: binary64_constants_def)
  note g = t_range_guard_not_triggered [of binary64_constants "4611686018427388 / 2 ^ 62" "Fin 8"
      binary64_interaction 5 example_externals binary64_model]
  have b8: "Fin 8 = Fin 8 \<and> (0::real) < 8"
    by simp
  have a: "DFR_tmin binary64_constants (Fin (4611686018427388 / 2 ^ 62)) < Fin 99
       \<and> 0 \<le> DFR_t_integral binary64_constants (Fin 8) (Fin (4611686018427388 / 2 ^ 62))"
    using g pos rat small b8 by blast
  have "list_all (\<lambda>p. DFR_tmin binary64_constants (fy (Kine p) * ProbeE (InitState p)) < Fin 99)
       (ls_calls
         (Integral binary64_constants example_externals binary64_model binary64_interaction))"
    unfolding list_all_iff
  proof
    fix p
    assume "p \<in> set (ls_calls
         (Integral binary64_constants example_externals binary64_model binary64_interaction))"
    with g pos m2 mpi binary64_above_threshold
    show "DFR_tmin binary64_constants (fy (Kine p) * ProbeE (InitState p)) < Fin 99"
      by blast
  qed
  with a small show ?thesis
    by blast
qed

end
